theory Spec2Isabelle
  imports Complex_Main "HOL-Library.Monad_Syntax"
begin

section \<open>Numbers\<close>

text \<open>
  The components compute with JavaScript numbers, which are IEEE 754 doubles. A finite
  double is modelled by the real number it denotes; the sign of a zero is not modelled. A
  value of type \<open>number\<close> is a finite double or \<open>None\<close>. As an input,
  \<open>None\<close> stands for \<open>NaN\<close> and for an absent property (\<open>undefined\<close>),
  which arithmetic reads as \<open>NaN\<close>; a truth test reads both as false. As a result of
  the arithmetic, \<open>None\<close> stands for \<open>NaN\<close> and for the infinities of an
  overflow: in these components an operand that is not finite never leads back to a
  finite result, and no truth test is applied to a computed value.

  \<open>fl\<close> rounds a real number to the nearest double, ties to the even significand: the
  significand has 53 bits, the exponent of the unit in the last place is at least
  \<open>-1074\<close>, and a result of magnitude \<open>2 ^ 1024\<close> or more is an infinity. Every
  arithmetic operation is the exact operation followed by \<open>fl\<close>, and a decimal literal
  denotes \<open>fl\<close> of its value.
\<close>

type_synonym number = "real option"

definition expo :: "real \<Rightarrow> int" where
  "expo x = max \<lfloor>log 2 \<bar>x\<bar>\<rfloor> (- 1022)"

definition ulp :: "real \<Rightarrow> real" where
  "ulp x = 2 powi (expo x - 52)"

definition rne :: "real \<Rightarrow> int" where
  "rne q =
     (let f = \<lfloor>q\<rfloor>; d = q - of_int f
      in if d < 1 / 2 then f else if 1 / 2 < d then f + 1 else if even f then f else f + 1)"

definition huge :: real where
  "huge = 2 ^ 1024"

definition tiny :: real where
  "tiny = 2 powi (- 1075)"

definition fl :: "real \<Rightarrow> number" where
  "fl x =
     (if x = 0 then Some 0
      else let r = of_int (rne (x / ulp x)) * ulp x
           in if huge \<le> \<bar>r\<bar> then None else Some r)"

definition dadd :: "number \<Rightarrow> number \<Rightarrow> number" where
  "dadd a b = do { x \<leftarrow> a; y \<leftarrow> b; fl (x + y) }"

definition dsub :: "number \<Rightarrow> number \<Rightarrow> number" where
  "dsub a b = do { x \<leftarrow> a; y \<leftarrow> b; fl (x - y) }"

definition dmul :: "number \<Rightarrow> number \<Rightarrow> number" where
  "dmul a b = do { x \<leftarrow> a; y \<leftarrow> b; fl (x * y) }"

definition ddiv :: "number \<Rightarrow> number \<Rightarrow> number" where
  "ddiv a b = do { x \<leftarrow> a; y \<leftarrow> b; if y = 0 then None else fl (x / y) }"

text \<open>The doubles: the reals \<open>m * 2 ^ e\<close> with \<open>\<bar>m\<bar> < 2 ^ 53\<close>, \<open>e \<ge> -1074\<close>, below \<open>2 ^ 1024\<close>.\<close>

definition mantissa :: "real \<Rightarrow> bool" where
  "mantissa x = (\<exists>m e. x = of_int m * 2 powi e \<and> \<bar>m\<bar> < 2 ^ 53 \<and> - 1074 \<le> e)"

definition is_double :: "real \<Rightarrow> bool" where
  "is_double x = (mantissa x \<and> \<bar>x\<bar> < huge)"

definition truthy :: "number \<Rightarrow> bool" where
  "truthy v = (case v of None \<Rightarrow> False | Some x \<Rightarrow> x \<noteq> 0)"

text \<open>\<open>Math.round\<close>, \<open>Math.floor\<close> and \<open>Math.ceil\<close> are exact on a finite double.\<close>

definition Math_round :: "real \<Rightarrow> int" where
  "Math_round x = \<lfloor>x + 1 / 2\<rfloor>"

definition Math_floor :: "real \<Rightarrow> int" where
  "Math_floor x = \<lfloor>x\<rfloor>"

definition Math_ceil :: "real \<Rightarrow> int" where
  "Math_ceil x = \<lceil>x\<rceil>"

text \<open>
  The language leaves the precision of \<open>Math.sin\<close>, \<open>Math.cos\<close>, \<open>Math.sqrt\<close> and
  \<open>Math.atan2\<close> to the engine: the library of the engine is a parameter of the model.
  \<open>Math.sqrt\<close> of a negative number is \<open>NaN\<close> in every engine.
\<close>

record libm =
  lib_sin :: "real \<Rightarrow> number"
  lib_cos :: "real \<Rightarrow> number"
  lib_sqrt :: "real \<Rightarrow> number"
  lib_atan2 :: "real \<Rightarrow> real \<Rightarrow> number"

definition Math_PI :: real where
  "Math_PI = 884279719003555 / 281474976710656"

definition Math_sin :: "libm \<Rightarrow> number \<Rightarrow> number" where
  "Math_sin lib a = do { x \<leftarrow> a; lib_sin lib x }"

definition Math_cos :: "libm \<Rightarrow> number \<Rightarrow> number" where
  "Math_cos lib a = do { x \<leftarrow> a; lib_cos lib x }"

definition Math_sqrt :: "libm \<Rightarrow> number \<Rightarrow> number" where
  "Math_sqrt lib a = do { x \<leftarrow> a; if x < 0 then None else lib_sqrt lib x }"

definition Math_atan2 :: "libm \<Rightarrow> number \<Rightarrow> number \<Rightarrow> number" where
  "Math_atan2 lib a b = do { y \<leftarrow> a; x \<leftarrow> b; lib_atan2 lib y x }"

text \<open>
  The arc tangent of two arguments over the reals, and the library that rounds the exact
  values of the four functions to the nearest double.
\<close>

definition atan2 :: "real \<Rightarrow> real \<Rightarrow> real" where
  "atan2 y x =
     (if 0 < x then arctan (y / x)
      else if x < 0 then (if 0 \<le> y then arctan (y / x) + pi else arctan (y / x) - pi)
      else if 0 < y then pi / 2
      else if y < 0 then - (pi / 2)
      else 0)"

definition rounded_lib :: libm where
  "rounded_lib =
     \<lparr>lib_sin = (\<lambda>x. fl (sin x)), lib_cos = (\<lambda>x. fl (cos x)),
      lib_sqrt = (\<lambda>x. fl (sqrt x)), lib_atan2 = (\<lambda>y x. fl (atan2 y x))\<rparr>"

text \<open>
  What the results below ask of a library. It is accurate when, on the small arguments
  that occur for points a few degrees apart, each function is within \<open>2 ^ -40\<close> of the
  exact value (the libraries of the engines are far closer there). It is well
  signed when square root and arc tangent of non-negative arguments are not negative.
\<close>

definition accurate :: "libm \<Rightarrow> bool" where
  "accurate lib =
     ((\<forall>x. \<bar>x\<bar> \<le> 2 \<longrightarrow> (\<exists>r. lib_sin lib x = Some r \<and> \<bar>r - sin x\<bar> \<le> 1 / 2 ^ 40)) \<and>
      (\<forall>x. \<bar>x\<bar> \<le> 2 \<longrightarrow> (\<exists>r. lib_cos lib x = Some r \<and> \<bar>r - cos x\<bar> \<le> 1 / 2 ^ 40)) \<and>
      (\<forall>x. 0 \<le> x \<and> x \<le> 2 \<longrightarrow> (\<exists>r. lib_sqrt lib x = Some r \<and> \<bar>r - sqrt x\<bar> \<le> 1 / 2 ^ 40)) \<and>
      (\<forall>y x. 0 \<le> y \<and> y \<le> 2 \<and> 0 < x \<and> x \<le> 2 \<longrightarrow>
         (\<exists>r. lib_atan2 lib y x = Some r \<and> \<bar>r - arctan (y / x)\<bar> \<le> 1 / 2 ^ 40)))"

definition well_signed :: "libm \<Rightarrow> bool" where
  "well_signed lib =
     ((\<forall>x r. 0 \<le> x \<longrightarrow> lib_sqrt lib x = Some r \<longrightarrow> 0 \<le> r) \<and>
      (\<forall>y x r. 0 \<le> y \<longrightarrow> lib_atan2 lib y x = Some r \<longrightarrow> 0 \<le> r))"

section \<open>Data of the booking summary\<close>

text \<open>
  A location with its coordinates, which are finite numbers or absent. A point that is
  itself absent (\<open>origin?.lat\<close>) is a location without coordinates.
\<close>

record location =
  address :: string
  lat :: number
  lng :: number

record stop = location +
  date :: string
  time :: string

record currency =
  code :: string
  symbol :: string
  rate :: real

definition EUR :: currency where
  "EUR = \<lparr>code = ''EUR'', symbol = [CHR 0xE2, CHR 0x82, CHR 0xAC], rate = 1\<rparr>"

definition USD :: currency where
  "USD = \<lparr>code = ''USD'', symbol = ''$'', rate = 108 / 100\<rparr>"

definition GBP :: currency where
  "GBP = \<lparr>code = ''GBP'', symbol = [CHR 0xC2, CHR 0xA3], rate = 85 / 100\<rparr>"

definition CHF :: currency where
  "CHF = \<lparr>code = ''CHF'', symbol = ''CHF'', rate = 95 / 100\<rparr>"

definition currencies :: "currency list" where
  "currencies = [EUR, USD, GBP, CHF]"

datatype service = AirportTransfer | Catering | Concierge | HotelBooking

fun SERVICE_PRICES :: "service \<Rightarrow> real" where
  "SERVICE_PRICES AirportTransfer = 250"
| "SERVICE_PRICES Catering = 350"
| "SERVICE_PRICES Concierge = 200"
| "SERVICE_PRICES HotelBooking = 150"

record services =
  airportTransfer :: bool
  catering :: bool
  concierge :: bool
  hotelBooking :: bool

record contactInfo =
  name :: string
  email :: string
  phone :: string
  specialRequests :: string

text \<open>Both wizards keep their position in a state variable \<open>currentStep\<close>.\<close>

record wizard =
  currentStep :: nat

record BookingSummary_state = wizard +
  showCheckout :: bool
  selectedCurrency :: currency
  showCurrencyDropdown :: bool
  totalSteps :: nat
  selectedServices :: services
  contactInfo :: contactInfo

section \<open>Pricing\<close>

text \<open>
  \<open>formatPrice\<close> converts with the currency's rate and hands the result to
  \<open>Intl.NumberFormat\<close> with the currency's code and zero fraction digits. The text
  the platform renders is determined by the code and by the amount rounded to an integer
  (halves away from zero, the formatter's default); the model returns these two, the
  amount being \<open>None\<close> where the text is that of a value that is not finite. The rate
  of a currency and the price of a service are written as decimal literals, so what the
  code multiplies and adds is \<open>fl\<close> of them.
\<close>

record price_text =
  shown_code :: string
  shown_units :: "int option"

definition Intl_round :: "real \<Rightarrow> int" where
  "Intl_round x = (if 0 \<le> x then \<lfloor>x + 1 / 2\<rfloor> else - \<lfloor>- x + 1 / 2\<rfloor>)"

definition formatPrice :: "number \<Rightarrow> currency \<Rightarrow> price_text" where
  "formatPrice price cur =
     (let convertedPrice = dmul price (fl (rate cur))
      in \<lparr>shown_code = code cur, shown_units = map_option Intl_round convertedPrice\<rparr>)"

definition getAdditionalServicesCost :: "services \<Rightarrow> number" where
  "getAdditionalServicesCost sel =
     (let total = Some 0;
          total = (if airportTransfer sel
                   then dadd total (fl (SERVICE_PRICES AirportTransfer)) else total);
          total = (if catering sel then dadd total (fl (SERVICE_PRICES Catering)) else total);
          total = (if concierge sel then dadd total (fl (SERVICE_PRICES Concierge)) else total);
          total = (if hotelBooking sel
                   then dadd total (fl (SERVICE_PRICES HotelBooking)) else total)
      in total)"

text \<open>
  The values a render derives from the base price (computed by the pricing-table
  collaborator, a parameter here) and the current state.
\<close>

definition additionalServicesCost :: "BookingSummary_state \<Rightarrow> number" where
  "additionalServicesCost st = getAdditionalServicesCost (selectedServices st)"

definition totalPrice :: "real \<Rightarrow> BookingSummary_state \<Rightarrow> number" where
  "totalPrice basePrice st = dadd (Some basePrice) (additionalServicesCost st)"

definition minPrice :: "real \<Rightarrow> int option" where
  "minPrice basePrice = map_option Math_floor (dmul (Some basePrice) (fl (9 / 10)))"

definition maxPrice :: "real \<Rightarrow> int option" where
  "maxPrice basePrice = map_option Math_ceil (dmul (Some basePrice) (fl (11 / 10)))"

definition priceRange :: "real \<Rightarrow> BookingSummary_state \<Rightarrow> price_text \<times> price_text" where
  "priceRange basePrice st =
     (formatPrice (map_option of_int (minPrice basePrice)) (selectedCurrency st),
      formatPrice (map_option of_int (maxPrice basePrice)) (selectedCurrency st))"

text \<open>
  The service cost the pricing contract describes: the fixed prices 250, 350, 200 and 150
  summed over the selected flags.
\<close>

definition serviceCost_spec :: "services \<Rightarrow> real" where
  "serviceCost_spec sel =
     (if airportTransfer sel then 250 else 0) + (if catering sel then 350 else 0) +
     (if concierge sel then 200 else 0) + (if hotelBooking sel then 150 else 0)"

definition no_services :: services where
  "no_services = \<lparr>airportTransfer = False, catering = False, concierge = False,
     hotelBooking = False\<rparr>"

definition all_services :: services where
  "all_services = \<lparr>airportTransfer = True, catering = True, concierge = True,
     hotelBooking = True\<rparr>"

section \<open>The booking-summary wizard\<close>

datatype effect =
    OnBack
  | OnClose
  | OnSuccess
  | CreateCheckoutSession string string
  | SendPaymentRequest string string string

text \<open>
  The state after mounting: the initial values of the state variables, followed by the
  effect that sets \<open>totalSteps\<close> from the stops of the itinerary.
\<close>

definition BookingSummary_initial :: BookingSummary_state where
  "BookingSummary_initial =
     \<lparr>currentStep = 1, showCheckout = False, selectedCurrency = currencies ! 0,
      showCurrencyDropdown = False, totalSteps = 3, selectedServices = no_services,
      contactInfo = \<lparr>name = '''', email = '''', phone = '''', specialRequests = ''''\<rparr>\<rparr>"

definition totalSteps_effect :: "stop list \<Rightarrow> BookingSummary_state \<Rightarrow> BookingSummary_state" where
  "totalSteps_effect stops st = st\<lparr>totalSteps := (if length stops > 0 then 4 else 3)\<rparr>"

definition BookingSummary_mount :: "stop list \<Rightarrow> BookingSummary_state" where
  "BookingSummary_mount stops = totalSteps_effect stops BookingSummary_initial"

text \<open>
  The handlers of the component. A handler that calls a collaborator returns the calls it
  makes next to the new state.
\<close>

definition BookingSummary_nextStep :: "BookingSummary_state \<Rightarrow> BookingSummary_state" where
  "BookingSummary_nextStep st =
     (if currentStep st < totalSteps st then st\<lparr>currentStep := currentStep st + 1\<rparr> else st)"

definition BookingSummary_prevStep ::
  "BookingSummary_state \<Rightarrow> BookingSummary_state \<times> effect list" where
  "BookingSummary_prevStep st =
     (if currentStep st > 1 then (st\<lparr>currentStep := currentStep st - 1\<rparr>, [])
      else (st, [OnBack]))"

definition handleRequestQuote :: "BookingSummary_state \<Rightarrow> BookingSummary_state" where
  "handleRequestQuote st = st\<lparr>showCheckout := True\<rparr>"

fun toggle :: "service \<Rightarrow> services \<Rightarrow> services" where
  "toggle AirportTransfer prev = prev\<lparr>airportTransfer := \<not> airportTransfer prev\<rparr>"
| "toggle Catering prev = prev\<lparr>catering := \<not> catering prev\<rparr>"
| "toggle Concierge prev = prev\<lparr>concierge := \<not> concierge prev\<rparr>"
| "toggle HotelBooking prev = prev\<lparr>hotelBooking := \<not> hotelBooking prev\<rparr>"

definition handleServiceToggle :: "service \<Rightarrow> BookingSummary_state \<Rightarrow> BookingSummary_state" where
  "handleServiceToggle s st = st\<lparr>selectedServices := toggle s (selectedServices st)\<rparr>"

datatype contact_field = Name | Email | Phone | SpecialRequests

fun set_field :: "contact_field \<Rightarrow> string \<Rightarrow> 'a contactInfo_scheme \<Rightarrow> 'a contactInfo_scheme" where
  "set_field Name v prev = prev\<lparr>name := v\<rparr>"
| "set_field Email v prev = prev\<lparr>email := v\<rparr>"
| "set_field Phone v prev = prev\<lparr>phone := v\<rparr>"
| "set_field SpecialRequests v prev = prev\<lparr>specialRequests := v\<rparr>"

definition handleContactInfoChange ::
  "contact_field \<Rightarrow> string \<Rightarrow> BookingSummary_state \<Rightarrow> BookingSummary_state" where
  "handleContactInfoChange f v st = st\<lparr>contactInfo := set_field f v (contactInfo st)\<rparr>"

definition BookingSummary_isFormValid :: "BookingSummary_state \<Rightarrow> bool" where
  "BookingSummary_isFormValid st =
     (if currentStep st = 3
      then name (contactInfo st) \<noteq> '''' \<and> email (contactInfo st) \<noteq> '''' \<and>
           phone (contactInfo st) \<noteq> ''''
      else True)"

text \<open>
  What the rendered view lets the user do. The header's back button is always there;
  the step content and the action buttons are replaced by the checkout form once
  \<open>showCheckout\<close> is set. The next button is rendered while
  \<open>currentStep < totalSteps\<close>, the quote button otherwise; both are disabled while the
  form is invalid. The inputs belong to the step that renders them.
\<close>

datatype BookingSummary_event =
    BsNext
  | BsBack
  | BsRequestQuote
  | BsToggle service
  | BsContact contact_field string
  | BsDropdown
  | BsClickOutside
  | BsCurrency currency
  | BsCheckoutSuccess

fun BookingSummary_fire ::
  "BookingSummary_event \<Rightarrow> BookingSummary_state \<Rightarrow> BookingSummary_state \<times> effect list" where
  "BookingSummary_fire BsNext st =
     (if \<not> showCheckout st \<and> currentStep st < totalSteps st \<and> BookingSummary_isFormValid st
      then (BookingSummary_nextStep st, []) else (st, []))"
| "BookingSummary_fire BsBack st = BookingSummary_prevStep st"
| "BookingSummary_fire BsRequestQuote st =
     (if \<not> showCheckout st \<and> \<not> currentStep st < totalSteps st \<and> BookingSummary_isFormValid st
      then (handleRequestQuote st, []) else (st, []))"
| "BookingSummary_fire (BsToggle s) st =
     (if \<not> showCheckout st \<and> currentStep st = 2 then (handleServiceToggle s st, [])
      else (st, []))"
| "BookingSummary_fire (BsContact f v) st =
     (if \<not> showCheckout st \<and> currentStep st = 3 then (handleContactInfoChange f v st, [])
      else (st, []))"
| "BookingSummary_fire BsDropdown st =
     (if \<not> showCheckout st \<and> currentStep st = 1
      then (st\<lparr>showCurrencyDropdown := \<not> showCurrencyDropdown st\<rparr>, []) else (st, []))"
| "BookingSummary_fire BsClickOutside st = (st\<lparr>showCurrencyDropdown := False\<rparr>, [])"
| "BookingSummary_fire (BsCurrency c) st =
     (if \<not> showCheckout st \<and> currentStep st = 1 \<and> showCurrencyDropdown st \<and>
         c \<in> set currencies
      then (st\<lparr>selectedCurrency := c, showCurrencyDropdown := False\<rparr>, []) else (st, []))"
| "BookingSummary_fire BsCheckoutSuccess st =
     (if showCheckout st then (st\<lparr>showCheckout := False\<rparr>, []) else (st, []))"

definition BookingSummary_run ::
  "stop list \<Rightarrow> BookingSummary_event list \<Rightarrow> BookingSummary_state" where
  "BookingSummary_run stops evs =
     foldl (\<lambda>st ev. fst (BookingSummary_fire ev st)) (BookingSummary_mount stops) evs"

section \<open>The checkout form\<close>

record formData = contactInfo +
  additionalServices :: services

record userInfo =
  ui_name :: string
  ui_email :: string
  ui_phone :: string
  ui_specialRequests :: "string option"
  ui_additionalServices :: "services option"

record user =
  user_name :: "string option"
  user_email :: "string option"

record CheckoutForm_props =
  offerId :: string
  offerType :: string
  title :: string
  price :: real
  currency :: string
  has_onSuccess :: bool
  userInfo :: "userInfo option"

record CheckoutForm_state = wizard +
  loading :: bool
  error :: "string option"
  success :: bool
  formData :: formData

text \<open>\<open>a || b\<close> on strings that may be absent: the first one that is present and not empty.\<close>

definition or_else :: "string option \<Rightarrow> string \<Rightarrow> string" where
  "or_else a b = (case a of None \<Rightarrow> b | Some s \<Rightarrow> if s \<noteq> '''' then s else b)"

definition CheckoutForm_initial :: "CheckoutForm_props \<Rightarrow> user option \<Rightarrow> CheckoutForm_state" where
  "CheckoutForm_initial props usr =
     \<lparr>currentStep = 1, loading = False, error = None, success = False,
      formData =
        \<lparr>name = or_else (map_option ui_name (userInfo props))
                  (or_else (Option.bind usr user_name) ''''),
         email = or_else (map_option ui_email (userInfo props))
                  (or_else (Option.bind usr user_email) ''''),
         phone = or_else (map_option ui_phone (userInfo props)) '''',
         specialRequests = or_else (Option.bind (userInfo props) ui_specialRequests) '''',
         additionalServices =
           (case Option.bind (userInfo props) ui_additionalServices of
              Some sel \<Rightarrow> sel | None \<Rightarrow> no_services)\<rparr>\<rparr>"

definition handleInputChange ::
  "contact_field \<Rightarrow> string \<Rightarrow> CheckoutForm_state \<Rightarrow> CheckoutForm_state" where
  "handleInputChange f v st = st\<lparr>formData := set_field f v (formData st)\<rparr>"

definition startsWith :: "string \<Rightarrow> string \<Rightarrow> bool" where
  "startsWith s p = (take (length p) s = p)"

text \<open>
  \<open>handlePayment\<close> is asynchronous. \<open>handlePayment_begin\<close> is the part that runs
  in the click handler, up to the call it awaits; \<open>handlePayment_resume\<close> is the
  continuation that runs when the collaborator has answered.
\<close>

definition handlePayment_begin ::
  "CheckoutForm_props \<Rightarrow> CheckoutForm_state \<Rightarrow> CheckoutForm_state \<times> effect list" where
  "handlePayment_begin props st =
     (let st = st\<lparr>loading := True, error := None\<rparr> in
      if name (formData st) = '''' \<or> email (formData st) = '''' \<or> phone (formData st) = ''''
      then (st\<lparr>error := Some ''Please fill in all required fields'', loading := False\<rparr>, [])
      else if offerType props = ''fixed_offer'' \<and> \<not> startsWith (offerId props) ''custom-''
      then (st, [CreateCheckoutSession (offerId props) (offerType props)])
      else if offerType props = ''empty_leg''
      then (st, [CreateCheckoutSession (offerId props) (offerType props)])
      else (st, [SendPaymentRequest (offerId props) (offerType props) (email (formData st))]))"

record replies =
  checkoutError :: "string option"
  requestSuccess :: bool
  requestError :: "string option"

datatype reply = Rejected "string option" | Answered replies

definition failed :: "string \<Rightarrow> CheckoutForm_state \<Rightarrow> CheckoutForm_state \<times> effect list" where
  "failed msg st = (st\<lparr>error := Some msg, loading := False\<rparr>, [])"

definition handlePayment_resume ::
  "CheckoutForm_props \<Rightarrow> reply \<Rightarrow> CheckoutForm_state \<Rightarrow> CheckoutForm_state \<times> effect list" where
  "handlePayment_resume props r st =
     (case r of
        Rejected None \<Rightarrow> failed ''Payment failed. Please try again.'' st
      | Rejected (Some msg) \<Rightarrow> failed msg st
      | Answered a \<Rightarrow>
          if (offerType props = ''fixed_offer'' \<and> \<not> startsWith (offerId props) ''custom-'')
             \<or> offerType props = ''empty_leg''
          then (if or_else (checkoutError a) '''' \<noteq> ''''
                then failed (or_else (checkoutError a) '''') st
                else (st\<lparr>loading := False\<rparr>, []))
          else (if or_else (requestError a) '''' \<noteq> ''''
                then failed (or_else (requestError a) '''') st
                else if requestSuccess a
                then (st\<lparr>success := True, loading := False\<rparr>,
                      if has_onSuccess props then [OnSuccess] else [])
                else (st\<lparr>loading := False\<rparr>, [])))"

definition CheckoutForm_nextStep ::
  "CheckoutForm_props \<Rightarrow> CheckoutForm_state \<Rightarrow> CheckoutForm_state \<times> effect list" where
  "CheckoutForm_nextStep props st =
     (if currentStep st < 2 then (st\<lparr>currentStep := currentStep st + 1\<rparr>, [])
      else handlePayment_begin props st)"

definition CheckoutForm_prevStep ::
  "CheckoutForm_state \<Rightarrow> CheckoutForm_state \<times> effect list" where
  "CheckoutForm_prevStep st =
     (if currentStep st > 1 then (st\<lparr>currentStep := currentStep st - 1\<rparr>, [])
      else (st, [OnClose]))"

definition CheckoutForm_isFormValid :: "CheckoutForm_state \<Rightarrow> bool" where
  "CheckoutForm_isFormValid st =
     (if currentStep st = 1
      then name (formData st) \<noteq> '''' \<and> email (formData st) \<noteq> '''' \<and>
           phone (formData st) \<noteq> ''''
      else True)"

text \<open>
  The view: once \<open>success\<close> is set only the close button is rendered. Otherwise the
  back button is always enabled, the next button is disabled while \<open>loading\<close> or
  while the form is invalid, and the inputs are rendered at step 1 only. A continuation
  of \<open>handlePayment\<close> is pending exactly while \<open>loading\<close> is set.
\<close>

datatype CheckoutForm_event =
    CfInput contact_field string
  | CfNext
  | CfBack
  | CfClose
  | CfSettle reply

fun CheckoutForm_fire ::
  "CheckoutForm_props \<Rightarrow> CheckoutForm_event \<Rightarrow> CheckoutForm_state \<Rightarrow>
   CheckoutForm_state \<times> effect list" where
  "CheckoutForm_fire props (CfInput f v) st =
     (if \<not> success st \<and> currentStep st = 1 then (handleInputChange f v st, []) else (st, []))"
| "CheckoutForm_fire props CfNext st =
     (if \<not> success st \<and> \<not> (loading st \<or> \<not> CheckoutForm_isFormValid st)
      then CheckoutForm_nextStep props st else (st, []))"
| "CheckoutForm_fire props CfBack st =
     (if \<not> success st then CheckoutForm_prevStep st else (st, []))"
| "CheckoutForm_fire props CfClose st =
     (if success st then (st, [OnClose]) else (st, []))"
| "CheckoutForm_fire props (CfSettle r) st =
     (if loading st then handlePayment_resume props r st else (st, []))"

definition CheckoutForm_run ::
  "CheckoutForm_props \<Rightarrow> user option \<Rightarrow> CheckoutForm_event list \<Rightarrow> CheckoutForm_state" where
  "CheckoutForm_run props usr evs =
     foldl (\<lambda>st ev. fst (CheckoutForm_fire props ev st)) (CheckoutForm_initial props usr) evs"

section \<open>The checkout-session endpoint\<close>

text \<open>
  The body of a request, as \<open>request.json()\<close> delivers it. A field of the body is a
  JSON value or absent (\<open>None\<close>); the fields carry the prefix \<open>body_\<close> here.
  Reading the body fails when it is not JSON, and destructuring fails when it is
  \<open>null\<close>; both land in the handler's \<open>catch\<close>. A body that is a JSON
  value without properties (a number, a string, a boolean, an array) is destructured
  like an object: it is a \<open>Fields\<close> in which every field is absent.
\<close>

datatype json = JNull | JBool bool | JNumber real | JString string | JOther

fun json_truthy :: "json option \<Rightarrow> bool" where
  "json_truthy None = False"
| "json_truthy (Some JNull) = False"
| "json_truthy (Some (JBool b)) = b"
| "json_truthy (Some (JNumber n)) = (n \<noteq> 0)"
| "json_truthy (Some (JString s)) = (s \<noteq> '''')"
| "json_truthy (Some JOther) = True"

record request_body =
  body_tierId :: "json option"
  body_tierType :: "json option"
  body_price :: "json option"
  body_currency :: "json option"
  body_name :: "json option"
  body_email :: "json option"
  body_metadata :: "json option"

datatype payload = Malformed | Null | Fields request_body

text \<open>The payment provider: what each of its two calls answers, \<open>None\<close> when it throws.\<close>

record stripe =
  customers_create :: "string option"
  sessions_create :: "string option"

datatype stripe_call = Customers_create | Sessions_create string

datatype response = SessionId string | Error string nat

definition POST :: "stripe \<Rightarrow> payload \<Rightarrow> response \<times> stripe_call list" where
  "POST provider request =
     (case request of
        Malformed \<Rightarrow> (Error ''Failed to create subscription'' 500, [])
      | Null \<Rightarrow> (Error ''Failed to create subscription'' 500, [])
      | Fields b \<Rightarrow>
          if \<not> json_truthy (body_tierId b) \<or> \<not> json_truthy (body_price b) \<or>
             \<not> json_truthy (body_currency b) \<or> \<not> json_truthy (body_name b) \<or>
             \<not> json_truthy (body_email b)
          then (Error ''Missing required parameters'' 400, [])
          else
            (case customers_create provider of
               None \<Rightarrow> (Error ''Failed to create subscription'' 500, [Customers_create])
             | Some customer \<Rightarrow>
                 let isOneTime = (body_tierId b = Some (JString ''partner-lifetime''));
                     mode = (if isOneTime then ''payment'' else ''subscription'')
                 in (case body_currency b of
                       Some (JString c) \<Rightarrow>
                         (case sessions_create provider of
                            None \<Rightarrow> (Error ''Failed to create subscription'' 500,
                                     [Customers_create, Sessions_create mode])
                          | Some session \<Rightarrow>
                              (SessionId session, [Customers_create, Sessions_create mode]))
                     | _ \<Rightarrow> (Error ''Failed to create subscription'' 500, [Customers_create]))))"

definition status :: "response \<Rightarrow> nat" where
  "status r = (case r of SessionId s \<Rightarrow> 200 | Error msg n \<Rightarrow> n)"

section \<open>The distance of an itinerary\<close>

text \<open>
  \<open>segment\<close> is what one turn of the loop adds for a pair of points that passed the
  latitude test: the haversine formula as the code writes it, operation by operation. A
  coordinate that is absent makes the result \<open>NaN\<close>. A point that is itself absent
  (\<open>point?.lat\<close>) is a location without latitude: it never passes the test, so nothing
  else of it is read.
\<close>

definition R :: real where
  "R = 6371"

definition segment :: "libm \<Rightarrow> location \<Rightarrow> location \<Rightarrow> number" where
  "segment lib point1 point2 =
     (let dLat = ddiv (dmul (dsub (lat point2) (lat point1)) (Some Math_PI)) (Some 180);
          dLon = ddiv (dmul (dsub (lng point2) (lng point1)) (Some Math_PI)) (Some 180);
          a = dadd
                (dmul (Math_sin lib (ddiv dLat (Some 2))) (Math_sin lib (ddiv dLat (Some 2))))
                (dmul
                  (dmul
                    (dmul (Math_cos lib (ddiv (dmul (lat point1) (Some Math_PI)) (Some 180)))
                          (Math_cos lib (ddiv (dmul (lat point2) (Some Math_PI)) (Some 180))))
                    (Math_sin lib (ddiv dLon (Some 2))))
                  (Math_sin lib (ddiv dLon (Some 2))));
          c = dmul (Some 2)
                (Math_atan2 lib (Math_sqrt lib a) (Math_sqrt lib (dsub (Some 1) a)))
      in dmul (Some R) c)"

fun loop :: "libm \<Rightarrow> location list \<Rightarrow> number \<Rightarrow> number" where
  "loop lib (point1 # point2 # points) totalDistance =
     (if \<not> truthy (lat point1) \<or> \<not> truthy (lat point2)
      then loop lib (point2 # points) totalDistance
      else loop lib (point2 # points) (dadd totalDistance (segment lib point1 point2)))"
| "loop lib points totalDistance = totalDistance"

definition route :: "location \<Rightarrow> stop list \<Rightarrow> location \<Rightarrow> location list" where
  "route origin stops destination = origin # map location.truncate stops @ [destination]"

definition calculateTotalDistance ::
  "libm \<Rightarrow> location \<Rightarrow> stop list \<Rightarrow> location \<Rightarrow> bool \<Rightarrow> int option" where
  "calculateTotalDistance lib origin stops destination isReturn =
     (if \<not> truthy (lat origin) \<or> \<not> truthy (lat destination) then Some 0
      else
        do {
          totalDistance \<leftarrow> loop lib (route origin stops destination) (Some 0);
          result \<leftarrow> (if isReturn then fl (totalDistance * 2) else Some totalDistance);
          Some (Math_round result)
        })"

text \<open>
  The distance as the contract words it. The haversine distance of two points, with the
  Earth radius 6371, is \<open>R * c\<close> where \<open>c = 2 * atan2 (sqrt a, sqrt (1 - a))\<close> and
  \<open>a\<close> is the haversine of the central angle; it is computed in doubles, in the order
  in which the formula is written. The distances are summed over the consecutive pairs of
  the route, from the origin on, a pair with an endpoint that misses latitude or
  longitude counting zero; the sum is doubled for a round trip and rounded.
\<close>

definition radians :: "number \<Rightarrow> number" where
  "radians deg = ddiv (dmul deg (Some Math_PI)) (Some 180)"

definition squared :: "number \<Rightarrow> number" where
  "squared x = dmul x x"

definition haversine :: "libm \<Rightarrow> number \<Rightarrow> number \<Rightarrow> number \<Rightarrow> number \<Rightarrow> number" where
  "haversine lib lat1 lng1 lat2 lng2 =
     (let half_dlat = ddiv (radians (dsub lat2 lat1)) (Some 2);
          half_dlng = ddiv (radians (dsub lng2 lng1)) (Some 2);
          a = dadd (squared (Math_sin lib half_dlat))
                (dmul (dmul (dmul (Math_cos lib (radians lat1)) (Math_cos lib (radians lat2)))
                    (Math_sin lib half_dlng)) (Math_sin lib half_dlng))
      in dmul (Some 6371)
           (dmul (Some 2) (Math_atan2 lib (Math_sqrt lib a) (Math_sqrt lib (dsub (Some 1) a)))))"

definition pair_spec :: "libm \<Rightarrow> location \<Rightarrow> location \<Rightarrow> number" where
  "pair_spec lib p q =
     (if lat p = None \<or> lng p = None \<or> lat q = None \<or> lng q = None then Some 0
      else haversine lib (lat p) (lng p) (lat q) (lng q))"

fun sum_pairs :: "(location \<Rightarrow> location \<Rightarrow> number) \<Rightarrow> location list \<Rightarrow> number \<Rightarrow> number" where
  "sum_pairs f (p # q # ps) t = sum_pairs f (q # ps) (dadd t (f p q))"
| "sum_pairs f ps t = t"

definition distance_spec ::
  "libm \<Rightarrow> location \<Rightarrow> stop list \<Rightarrow> location \<Rightarrow> bool \<Rightarrow> int option" where
  "distance_spec lib origin stops destination isRoundTrip =
     do {
       total \<leftarrow> sum_pairs (pair_spec lib) (route origin stops destination) (Some 0);
       result \<leftarrow> (if isRoundTrip then fl (total * 2) else Some total);
       Some (Math_round result)
     }"

text \<open>
  The unrounded sum that the code forms: 0 when the origin or the destination has no
  latitude or the latitude 0, and otherwise the sum over the consecutive pairs of the
  route of the haversine distance of the pairs whose two latitudes are present and not 0.
\<close>

definition counted :: "location \<Rightarrow> bool" where
  "counted p = (lat p \<noteq> None \<and> lat p \<noteq> Some 0)"

definition leg :: "libm \<Rightarrow> location \<Rightarrow> location \<Rightarrow> number" where
  "leg lib p q =
     (if counted p \<and> counted q then haversine lib (lat p) (lng p) (lat q) (lng q) else Some 0)"

definition unrounded :: "libm \<Rightarrow> location \<Rightarrow> stop list \<Rightarrow> location \<Rightarrow> number" where
  "unrounded lib origin stops destination =
     (if counted origin \<and> counted destination
      then sum_pairs (leg lib) (route origin stops destination) (Some 0)
      else Some 0)"

text \<open>Points used in the examples.\<close>

definition point :: "real \<Rightarrow> real \<Rightarrow> location" where
  "point la lo = \<lparr>address = ''Somewhere (XXX)'', lat = Some la, lng = Some lo\<rparr>"

definition nowhere :: location where
  "nowhere = \<lparr>address = '''', lat = None, lng = None\<rparr>"

definition stop_at :: "real \<Rightarrow> real \<Rightarrow> stop" where
  "stop_at la lo = \<lparr>address = ''Somewhere (XXX)'', lat = Some la, lng = Some lo,
     date = ''2025-01-01'', time = ''10:00''\<rparr>"

section \<open>Auxiliary notions and examples\<close>

text \<open>The three required fields of the checkout form are filled in.\<close>

definition filled :: "CheckoutForm_state \<Rightarrow> bool" where
  "filled st = (name (formData st) \<noteq> '''' \<and> email (formData st) \<noteq> '''' \<and>
     phone (formData st) \<noteq> '''')"

text \<open>
  The checkout form as the booking summary opens it: a fixed offer with a \<open>custom-\<close>
  identifier and the contact details of the wizard.
\<close>

definition example_props :: CheckoutForm_props where
  "example_props =
     \<lparr>offerId = ''custom-1700000000000'', offerType = ''fixed_offer'',
      title = ''Paris to London'', price = 1000, currency = ''EUR'', has_onSuccess = True,
      userInfo = Some \<lparr>ui_name = ''Ada'', ui_email = ''ada@example.org'', ui_phone = ''5550100'',
        ui_specialRequests = None, ui_additionalServices = None\<rparr>\<rparr>"

text \<open>
  A request misses a field when its body carries no property of that name. A body that
  is \<open>null\<close> or is not JSON carries no property at all.
\<close>

definition missing :: "(request_body \<Rightarrow> json option) \<Rightarrow> payload \<Rightarrow> bool" where
  "missing field request = (case request of Fields b \<Rightarrow> field b = None | _ \<Rightarrow> True)"

definition example_body :: request_body where
  "example_body =
     \<lparr>body_tierId = Some (JString ''partner-gold''), body_tierType = Some (JString ''partner''),
      body_price = Some (JNumber 5000), body_currency = Some (JString ''EUR''),
      body_name = Some (JString ''Ada''), body_email = Some (JString ''ada@example.org''),
      body_metadata = None\<rparr>"

definition example_stripe :: stripe where
  "example_stripe = \<lparr>customers_create = Some ''cus_1'', sessions_create = Some ''cs_1''\<rparr>"

section \<open>Rounding to a double: results\<close>

text \<open>
  Rounding is exact on a double, is within half a unit in the last place of its argument,
  keeps the sign, and can be evaluated on a rational number once the binary exponent of
  the number is known.
\<close>

lemma rne_of_int [simp]: "rne (of_int n) = n"
  by (simp add: rne_def)

lemma rne_near: "\<bar>of_int (rne q) - q\<bar> \<le> 1 / 2"
  unfolding rne_def Let_def by (auto simp: abs_le_iff; linarith?)

lemma rne_nonneg: "0 \<le> q \<Longrightarrow> 0 \<le> rne q"
  unfolding rne_def Let_def by (auto simp: zero_le_floor; linarith?)

lemma rne_le_int: "q \<le> of_int n \<Longrightarrow> rne q \<le> n"
  unfolding rne_def Let_def
  by (auto simp: floor_le_iff; linarith?)

lemma rne_ge_int: "of_int n \<le> q \<Longrightarrow> n \<le> rne q"
  unfolding rne_def Let_def
  by (auto simp: le_floor_iff; linarith?)

lemma powi_powr: "(2::real) powi e = 2 powr (of_int e)"
  by (simp add: powr_real_of_int')

lemma expo_ge: "- 1022 \<le> expo x"
  by (simp add: expo_def)

lemma expo_upper: "x \<noteq> 0 \<Longrightarrow> \<bar>x\<bar> < 2 powi (expo x + 1)"
proof -
  assume "x \<noteq> 0"
  then have p: "0 < \<bar>x\<bar>" by simp
  define L where "L = \<lfloor>log 2 \<bar>x\<bar>\<rfloor>"
  have "\<bar>x\<bar> < 2 powr (of_int L + 1)"
    using floor_log_eq_powr_iff [of "\<bar>x\<bar>" 2 L] p by (simp add: L_def)
  also have "\<dots> = 2 powi (L + 1)" by (simp add: powi_powr)
  also have "\<dots> \<le> 2 powi (expo x + 1)"
    by (rule power_int_increasing) (simp_all add: expo_def L_def)
  finally show ?thesis .
qed

lemma expo_lower: "x \<noteq> 0 \<Longrightarrow> - 1022 < expo x \<Longrightarrow> 2 powi (expo x) \<le> \<bar>x\<bar>"
proof -
  assume "x \<noteq> 0" and c: "- 1022 < expo x"
  then have p: "0 < \<bar>x\<bar>" by simp
  define L where "L = \<lfloor>log 2 \<bar>x\<bar>\<rfloor>"
  have e: "expo x = L" using c by (simp add: expo_def L_def max_def split: if_splits)
  have "2 powr (of_int L) \<le> \<bar>x\<bar>"
    using floor_log_eq_powr_iff [of "\<bar>x\<bar>" 2 L] p by (simp add: L_def)
  then show ?thesis by (simp add: e powi_powr)
qed

lemma expo_eq:
  assumes "2 powi e \<le> \<bar>x\<bar>" "\<bar>x\<bar> < 2 powi (e + 1)" "- 1022 \<le> e"
  shows "expo x = e"
proof -
  have p: "0 < \<bar>x\<bar>" using assms(1) by (smt (verit) zero_less_power_int)
  have "\<lfloor>log 2 \<bar>x\<bar>\<rfloor> = e"
    using floor_log_eq_powr_iff [of "\<bar>x\<bar>" 2 e] p assms(1,2) by (simp add: powi_powr)
  then show ?thesis using assms(3) by (simp add: expo_def)
qed

lemma expo_subnormal:
  assumes "x \<noteq> 0" "\<bar>x\<bar> < 2 powi (- 1022)"
  shows "expo x = - 1022"
proof (rule ccontr)
  assume "expo x \<noteq> - 1022"
  then have c: "- 1022 < expo x" using expo_ge [of x] by simp
  from expo_lower [OF assms(1) c] have "2 powi (expo x) \<le> \<bar>x\<bar>" .
  moreover have "(2::real) powi (- 1022) \<le> 2 powi (expo x)"
    by (rule power_int_increasing) (use c in simp_all)
  ultimately show False using assms(2) by linarith
qed

lemma ulp_pos: "0 < ulp x"
  by (simp add: ulp_def)

lemma round_exact:
  assumes "mantissa x" "x \<noteq> 0"
  shows "of_int (rne (x / ulp x)) * ulp x = x"
proof -
  from assms(1) obtain m e where x: "x = of_int m * 2 powi e" and m: "\<bar>m\<bar> < 2 ^ 53"
    and e: "- 1074 \<le> e"
    by (auto simp: mantissa_def)
  define k where "k = expo x - 52"
  have "k \<le> e"
  proof (cases "- 1022 < expo x")
    case True
    have "2 powi (expo x) \<le> \<bar>x\<bar>" by (rule expo_lower [OF assms(2) True])
    also have "\<bar>x\<bar> = of_int \<bar>m\<bar> * 2 powi e" by (simp add: x abs_mult)
    also have "\<dots> < 2 ^ 53 * 2 powi e"
    proof -
      have "real_of_int \<bar>m\<bar> < 2 ^ 53" using m by (metis of_int_less_iff of_int_numeral of_int_power)
      then show ?thesis by simp
    qed
    also have "\<dots> = 2 powi (53 + e)" by (simp add: power_int_add)
    finally have "(2::real) powi (expo x) < 2 powi (53 + e)" .
    have "expo x < 53 + e"
    proof (rule ccontr)
      assume "\<not> expo x < 53 + e"
      then have "(2::real) powi (53 + e) \<le> 2 powi (expo x)"
        by (intro power_int_increasing) simp_all
      with \<open>(2::real) powi (expo x) < 2 powi (53 + e)\<close> show False by simp
    qed
    then show ?thesis by (simp add: k_def)
  next
    case False
    then have "expo x = - 1022" using expo_ge [of x] by simp
    then show ?thesis using e by (simp add: k_def)
  qed
  then obtain j where j: "e = k + int j" by (metis zle_iff_zadd)
  have u: "ulp x = 2 powi k" by (simp add: ulp_def k_def)
  have xk: "x = of_int (m * 2 ^ j) * 2 powi k"
    by (simp add: x j power_int_add)
  have "x / 2 powi k = of_int (m * 2 ^ j)"
    unfolding xk by simp
  then have "rne (x / ulp x) = m * 2 ^ j" unfolding u by (simp only: rne_of_int)
  then show ?thesis unfolding u using xk by simp
qed

lemma powi_succ: "(2::real) powi (e + 1) = 2 powi e * 2"
  by (simp add: power_int_add)

lemma tiny_pos: "0 < tiny"
  by (simp only: tiny_def zero_less_power_int zero_less_numeral)

lemma half_least: "(2::real) powi (- 1074) / 2 = tiny"
proof -
  have "(- 1075::int) + 1 = - 1074" by simp
  then have "(2::real) powi (- 1074) = 2 powi (- 1075) * 2"
    using powi_succ [of "- 1075"] by (simp only:)
  then show ?thesis by (simp only: tiny_def)
qed

lemma huge_pos: "0 < huge"
  by (simp only: huge_def zero_less_power zero_less_numeral)

lemma huge_gt: "n \<le> 1023 \<Longrightarrow> (2::real) ^ n < huge"
  unfolding huge_def by (rule power_strict_increasing) simp_all

lemma round_dist:
  fixes u x :: real
  assumes "0 < u"
  shows "\<bar>of_int n * u - x\<bar> = \<bar>of_int n - x / u\<bar> * u"
proof -
  have "u \<noteq> 0" using assms by simp
  then have "of_int n * u - x = (of_int n - x / u) * u"
    by (simp add: left_diff_distrib)
  then show ?thesis using assms by (simp add: abs_mult)
qed

lemma round_half_ulp: "\<bar>of_int (rne (x / ulp x)) * ulp x - x\<bar> \<le> ulp x / 2"
proof -
  have "\<bar>of_int (rne (x / ulp x)) * ulp x - x\<bar> =
      \<bar>of_int (rne (x / ulp x)) - x / ulp x\<bar> * ulp x"
    by (rule round_dist [OF ulp_pos])
  also have "\<dots> \<le> 1 / 2 * ulp x"
    by (rule mult_right_mono [OF rne_near]) (simp add: less_imp_le ulp_pos)
  finally show ?thesis by simp
qed

lemma fl_mantissa:
  assumes "mantissa x"
  shows "fl x = (if huge \<le> \<bar>x\<bar> then None else Some x)"
proof (cases "x = 0")
  case True
  then show ?thesis using huge_pos by (simp add: fl_def)
next
  case False
  then show ?thesis by (simp add: fl_def Let_def round_exact [OF assms False])
qed

lemma fl_double: "is_double x \<Longrightarrow> fl x = Some x"
  by (simp add: is_double_def fl_mantissa)

lemma mantissa_twice: "mantissa x \<Longrightarrow> mantissa (x * 2)"
proof -
  assume "mantissa x"
  then obtain m e where x: "x = of_int m * 2 powi e" and m: "\<bar>m\<bar> < 2 ^ 53" and e: "- 1074 \<le> e"
    by (auto simp: mantissa_def)
  have "x * 2 = of_int m * 2 powi (e + 1)" by (simp add: x power_int_add)
  with m e show ?thesis unfolding mantissa_def by (intro exI [of _ m] exI [of _ "e + 1"]) simp
qed

lemma fl_twice:
  "is_double x \<Longrightarrow> fl (x * 2) = (if huge \<le> \<bar>x * 2\<bar> then None else Some (x * 2))"
  by (simp only: is_double_def fl_mantissa mantissa_twice)

lemma mantissa_int: "\<bar>n\<bar> < 2 ^ 53 \<Longrightarrow> mantissa (of_int n)"
  unfolding mantissa_def by (intro exI [of _ n] exI [of _ 0]) simp

lemma fl_error:
  assumes "fl x = Some r"
  shows "\<bar>r - x\<bar> \<le> \<bar>x\<bar> / 2 ^ 53 + tiny"
proof (cases "x = 0")
  case True
  with assms show ?thesis using tiny_pos by (simp add: fl_def)
next
  case False
  from assms False have r: "r = of_int (rne (x / ulp x)) * ulp x"
    by (simp add: fl_def Let_def split: if_splits)
  have h: "\<bar>r - x\<bar> \<le> ulp x / 2" unfolding r by (rule round_half_ulp)
  show ?thesis
  proof (cases "- 1022 < expo x")
    case True
    have "ulp x = 2 powi (expo x) / 2 ^ 52" by (simp add: ulp_def power_int_diff)
    also have "\<dots> \<le> \<bar>x\<bar> / 2 ^ 52"
      using expo_lower [OF False True] by (simp add: divide_right_mono)
    finally show ?thesis using h tiny_pos by (simp add: field_simps)
  next
    case False
    then have "expo x = - 1022" using expo_ge [of x] by simp
    then have "ulp x = 2 powi (- 1074)" by (simp only: ulp_def) simp
    then have "ulp x / 2 = tiny" by (simp only: half_least)
    then show ?thesis using h by simp
  qed
qed

lemma fl_nonneg:
  assumes "fl x = Some r" "0 \<le> x"
  shows "0 \<le> r"
proof (cases "x = 0")
  case True
  with assms show ?thesis by (simp add: fl_def)
next
  case False
  from assms False have r: "r = of_int (rne (x / ulp x)) * ulp x"
    by (simp add: fl_def Let_def split: if_splits)
  have "0 \<le> rne (x / ulp x)"
    by (rule rne_nonneg) (use assms(2) ulp_pos [of x] in simp)
  then show ?thesis using ulp_pos [of x] by (simp add: r)
qed

lemma fl_eval:
  assumes "2 powi e \<le> \<bar>x\<bar>" "\<bar>x\<bar> < 2 powi (e + 1)" "- 1022 \<le> e"
    and "r = of_int (rne (x / 2 powi (e - 52))) * 2 powi (e - 52)" "\<bar>r\<bar> < huge"
  shows "fl x = Some r"
proof -
  have "x \<noteq> 0" using assms(1) by (smt (verit) zero_less_power_int abs_zero)
  moreover have "ulp x = 2 powi (e - 52)"
    by (simp add: ulp_def expo_eq [OF assms(1-3)])
  ultimately show ?thesis using assms(4,5) by (simp add: fl_def Let_def)
qed

lemma ulp_le:
  assumes "x \<noteq> 0"
  shows "ulp x \<le> \<bar>x\<bar> \<or> ulp x = 2 powi (- 1074)"
proof (cases "- 1022 < expo x")
  case True
  have "ulp x = 2 powi (expo x) / 2 ^ 52" by (simp add: ulp_def power_int_diff)
  also have "\<dots> \<le> \<bar>x\<bar> / 2 ^ 52"
    using expo_lower [OF assms True] by (simp add: divide_right_mono)
  also have "\<dots> \<le> \<bar>x\<bar>" by (simp add: field_simps)
  finally show ?thesis by simp
next
  case False
  then have "expo x = - 1022" using expo_ge [of x] by simp
  then have "ulp x = 2 powi (- 1074)" by (simp only: ulp_def) simp
  then show ?thesis by simp
qed

lemma fl_finite:
  assumes "\<bar>x\<bar> \<le> 2 ^ n" "n \<le> 1022"
  shows "\<exists>r. fl x = Some r"
proof (cases "x = 0")
  case True
  then show ?thesis by (simp add: fl_def)
next
  case False
  define r where "r = of_int (rne (x / ulp x)) * ulp x"
  have h: "\<bar>r - x\<bar> \<le> ulp x / 2" unfolding r_def by (rule round_half_ulp)
  have "(2::real) powi (- 1074) \<le> 2 powi 0"
    by (rule power_int_increasing) simp_all
  also have "\<dots> \<le> (2::real) ^ n" by simp
  finally have "ulp x \<le> 2 ^ n" using ulp_le [OF False] assms(1) by auto
  with h assms(1) have "\<bar>r\<bar> \<le> 2 ^ n + 2 ^ n" using ulp_pos [of x] by linarith
  also have "\<dots> = (2::real) ^ Suc n" by simp
  also have "\<dots> < huge" by (rule huge_gt) (use assms(2) in simp)
  finally show ?thesis using False by (simp add: fl_def Let_def r_def)
qed

lemma fl_is_double:
  assumes "fl x = Some r"
  shows "is_double r"
proof (cases "x = 0")
  case True
  with assms have "r = 0" by (simp add: fl_def)
  then show ?thesis
    using mantissa_int [of 0] huge_pos by (simp add: is_double_def)
next
  case False
  define k where "k = expo x - 52"
  define n where "n = rne (x / ulp x)"
  have u: "ulp x = 2 powi k" by (simp add: ulp_def k_def)
  from assms False have r: "r = of_int n * 2 powi k" and fin: "\<bar>r\<bar> < huge"
    by (simp_all add: fl_def Let_def n_def u split: if_splits)
  have k: "- 1074 \<le> k" using expo_ge [of x] by (simp add: k_def)
  have "\<bar>x\<bar> < 2 powi (expo x + 1)" by (rule expo_upper [OF False])
  also have "\<dots> = 2 ^ 53 * 2 powi k"
  proof -
    have "expo x + 1 = 53 + k" by (simp add: k_def)
    then have "(2::real) powi (expo x + 1) = 2 powi 53 * 2 powi k"
      by (simp only: power_int_add) (simp add: power_int_add)
    then show ?thesis by simp
  qed
  finally have "\<bar>x\<bar> / 2 powi k < 2 ^ 53" by (simp add: field_simps)
  then have q: "x / ulp x \<le> of_int (2 ^ 53)" "of_int (- (2 ^ 53)) \<le> x / ulp x"
    by (simp_all add: u abs_less_iff field_simps)
  have n: "n \<le> 2 ^ 53" "- (2 ^ 53) \<le> n"
    unfolding n_def using rne_le_int [OF q(1)] rne_ge_int [OF q(2)] by simp_all
  have "mantissa r"
  proof (cases "\<bar>n\<bar> < 2 ^ 53")
    case True
    then show ?thesis unfolding mantissa_def using r k by (intro exI [of _ n] exI [of _ k]) simp
  next
    case False
    with n have "n = 2 ^ 53 \<or> n = - (2 ^ 53)" by auto
    then have "r = of_int (n div 2) * 2 powi (k + 1) \<and> \<bar>n div 2\<bar> < 2 ^ 53"
      by (auto simp: r power_int_add)
    then show ?thesis unfolding mantissa_def using k
      by (intro exI [of _ "n div 2"] exI [of _ "k + 1"]) simp
  qed
  with fin show ?thesis by (simp add: is_double_def)
qed

lemma fl_int: "\<bar>n\<bar> < 2 ^ 53 \<Longrightarrow> fl (of_int n) = Some (of_int n)"
proof -
  assume n: "\<bar>n\<bar> < 2 ^ 53"
  then have "real_of_int \<bar>n\<bar> < 2 ^ 53"
    by (metis of_int_less_iff of_int_numeral of_int_power)
  also have "\<dots> < huge" by (rule huge_gt) simp
  finally have "\<bar>real_of_int n\<bar> < huge" by simp
  with mantissa_int [OF n] show ?thesis by (simp add: fl_mantissa)
qed

lemma fl_numeral: "numeral k < (2::int) ^ 53 \<Longrightarrow> fl (numeral k) = Some (numeral k)"
  using fl_int [of "numeral k"] by simp

lemma fl_zero: "fl 0 = Some 0"
  by (simp add: fl_def)

lemma fl_one: "fl 1 = Some 1"
  using fl_int [of 1] by simp

lemma is_double_int: "\<bar>n\<bar> < 2 ^ 53 \<Longrightarrow> is_double (of_int n)"
proof -
  assume n: "\<bar>n\<bar> < 2 ^ 53"
  then have "real_of_int \<bar>n\<bar> < 2 ^ 53"
    by (metis of_int_less_iff of_int_numeral of_int_power)
  moreover have "(2::real) ^ 53 < huge" by (rule huge_gt) simp
  ultimately show ?thesis using n by (simp add: is_double_def mantissa_int)
qed

lemma is_double_numeral: "numeral k < (2::int) ^ 53 \<Longrightarrow> is_double (numeral k)"
  using is_double_int [of "numeral k"] by simp

lemma is_double_zero: "is_double 0"
  using is_double_int [of 0] by simp

section \<open>Pricing: results\<close>

lemma Intl_round_near: "\<bar>of_int (Intl_round x) - x\<bar> \<le> 1 / 2"
proof (cases "0 \<le> x")
  case True
  then have e: "Intl_round x = \<lfloor>x + 1 / 2\<rfloor>" by (simp add: Intl_round_def)
  show ?thesis unfolding e by linarith
next
  case False
  then have e: "Intl_round x = - \<lfloor>- x + 1 / 2\<rfloor>" by (simp add: Intl_round_def)
  show ?thesis unfolding e of_int_minus by linarith
qed

lemma Intl_round_int: "Intl_round (of_int n) = n"
  by (simp add: Intl_round_def)

lemma getAdditionalServicesCost_spec:
  "getAdditionalServicesCost sel = Some (serviceCost_spec sel)"
  by (simp add: getAdditionalServicesCost_def serviceCost_spec_def Let_def dadd_def fl_numeral)

lemma fl_0_9: "fl (9 / 10) = Some (8106479329266893 / 9007199254740992)"
  by (rule fl_eval [where e = "- 1"]) (simp_all add: rne_def huge_def)

lemma fl_1_1: "fl (11 / 10) = Some (2476979795053773 / 2251799813685248)"
  by (rule fl_eval [where e = 0]) (simp_all add: rne_def huge_def)

lemma fl_0_85: "fl (85 / 100) = Some (7656119366529843 / 9007199254740992)"
  by (rule fl_eval [where e = "- 1"]) (simp_all add: rne_def huge_def)

lemma rate_EUR: "fl (rate EUR) = Some 1" "code EUR = ''EUR''"
  by (simp_all add: EUR_def fl_one)

lemma rate_GBP: "fl (rate GBP) = Some (7656119366529843 / 9007199254740992)" "code GBP = ''GBP''"
proof -
  have "rate GBP = 85 / 100" by (simp add: GBP_def)
  then show "fl (rate GBP) = Some (7656119366529843 / 9007199254740992)"
    by (simp only: fl_0_85)
  show "code GBP = ''GBP''" by (simp add: GBP_def)
qed

lemma formatPrice_units:
  assumes "fl (rate cur) = Some r" "fl (p * r) = Some x"
  shows "\<exists>n. formatPrice (Some p) cur = \<lparr>shown_code = code cur, shown_units = Some n\<rparr>
    \<and> \<bar>of_int n - x\<bar> \<le> 1 / 2"
  using assms Intl_round_near [of x] by (simp add: formatPrice_def dmul_def)

lemma formatPrice_EUR_int:
  "\<bar>n\<bar> < 2 ^ 53 \<Longrightarrow>
   formatPrice (Some (of_int n)) EUR = \<lparr>shown_code = ''EUR'', shown_units = Some n\<rparr>"
  by (simp add: formatPrice_def EUR_def fl_one dmul_def fl_int Intl_round_int)

lemma dmul_10350_085:
  "dmul (Some 10350) (Some (7656119366529843 / 9007199254740992)) = Some (17595 / 2)"
proof -
  have "fl (10350 * (7656119366529843 / 9007199254740992)) = Some (17595 / 2)"
    by (rule fl_eval [where e = 13]) (simp_all add: rne_def huge_def)
  then show ?thesis by (simp only: dmul_def Option.bind.bind_lunit)
qed

lemma dmul_100_09:
  "dmul (Some 100) (Some (8106479329266893 / 9007199254740992)) = Some 90"
proof -
  have "fl (100 * (8106479329266893 / 9007199254740992)) = Some 90"
    by (rule fl_eval [where e = 6]) (simp_all add: rne_def huge_def)
  then show ?thesis by (simp only: dmul_def Option.bind.bind_lunit)
qed

lemma dmul_100_11:
  "dmul (Some 100) (Some (2476979795053773 / 2251799813685248)) = Some (7740561859543041 / 70368744177664)"
proof -
  have "fl (100 * (2476979795053773 / 2251799813685248)) = Some (7740561859543041 / 70368744177664)"
    by (rule fl_eval [where e = 6]) (simp_all add: rne_def huge_def)
  then show ?thesis by (simp only: dmul_def Option.bind.bind_lunit)
qed

lemma dmul_1000_09:
  "dmul (Some 1000) (Some (8106479329266893 / 9007199254740992)) = Some 900"
proof -
  have "fl (1000 * (8106479329266893 / 9007199254740992)) = Some 900"
    by (rule fl_eval [where e = 9]) (simp_all add: rne_def huge_def)
  then show ?thesis by (simp only: dmul_def Option.bind.bind_lunit)
qed

lemma dmul_1000_11:
  "dmul (Some 1000) (Some (2476979795053773 / 2251799813685248)) = Some 1100"
proof -
  have "fl (1000 * (2476979795053773 / 2251799813685248)) = Some 1100"
    by (rule fl_eval [where e = 10]) (simp_all add: rne_def huge_def)
  then show ?thesis by (simp only: dmul_def Option.bind.bind_lunit)
qed

lemma dmul_1950_09:
  "dmul (Some 1950) (Some (8106479329266893 / 9007199254740992)) = Some 1755"
proof -
  have "fl (1950 * (8106479329266893 / 9007199254740992)) = Some 1755"
    by (rule fl_eval [where e = 10]) (simp_all add: rne_def huge_def)
  then show ?thesis by (simp only: dmul_def Option.bind.bind_lunit)
qed

lemma dmul_1950_11:
  "dmul (Some 1950) (Some (2476979795053773 / 2251799813685248)) = Some 2145"
proof -
  have "fl (1950 * (2476979795053773 / 2251799813685248)) = Some 2145"
    by (rule fl_eval [where e = 11]) (simp_all add: rne_def huge_def)
  then show ?thesis by (simp only: dmul_def Option.bind.bind_lunit)
qed

text \<open>
  Claim C4. The four services cost 250, 350, 200 and 150, and the cost of a selection is
  the sum of the prices of the selected services. The total is the base price plus that
  cost, one addition of doubles. What a render displays for it is \<open>formatPrice totalPrice\<close>:
  the code of the currency and the product of the total and the rate, one multiplication
  of doubles, shown without fraction digits, so that the displayed integer is within
  \<open>1 / 2\<close> of that product. With no service selected the total is the base price, with
  all four it is the base price plus 950, also as displayed in EUR, whose rate is 1.
\<close>

theorem C4_total_displayed:
  assumes "is_double basePrice"
  shows "getAdditionalServicesCost (no_services\<lparr>airportTransfer := True\<rparr>) = Some 250
    \<and> getAdditionalServicesCost (no_services\<lparr>catering := True\<rparr>) = Some 350
    \<and> getAdditionalServicesCost (no_services\<lparr>concierge := True\<rparr>) = Some 200
    \<and> getAdditionalServicesCost (no_services\<lparr>hotelBooking := True\<rparr>) = Some 150
    \<and> additionalServicesCost st = Some (serviceCost_spec (selectedServices st))
    \<and> totalPrice basePrice st = fl (basePrice + serviceCost_spec (selectedServices st))
    \<and> shown_code (formatPrice (totalPrice basePrice st) cur) = code cur
    \<and> (\<forall>t r x. fl (basePrice + serviceCost_spec (selectedServices st)) = Some t \<longrightarrow>
          fl (rate cur) = Some r \<longrightarrow> fl (t * r) = Some x \<longrightarrow>
          (\<exists>n. shown_units (formatPrice (totalPrice basePrice st) cur) = Some n \<and>
               \<bar>of_int n - x\<bar> \<le> 1 / 2))
    \<and> totalPrice basePrice (st\<lparr>selectedServices := no_services\<rparr>) = Some basePrice
    \<and> totalPrice basePrice (st\<lparr>selectedServices := all_services\<rparr>) = fl (basePrice + 950)
    \<and> (\<exists>n. formatPrice (totalPrice basePrice (st\<lparr>selectedServices := no_services\<rparr>)) EUR =
             \<lparr>shown_code = ''EUR'', shown_units = Some n\<rparr> \<and> \<bar>of_int n - basePrice\<bar> \<le> 1 / 2)
    \<and> (\<forall>t. fl (basePrice + 950) = Some t \<longrightarrow>
          (\<exists>n. formatPrice (totalPrice basePrice (st\<lparr>selectedServices := all_services\<rparr>)) EUR =
             \<lparr>shown_code = ''EUR'', shown_units = Some n\<rparr> \<and> \<bar>of_int n - t\<bar> \<le> 1 / 2))"
proof -
  have prices: "getAdditionalServicesCost (no_services\<lparr>airportTransfer := True\<rparr>) = Some 250"
    "getAdditionalServicesCost (no_services\<lparr>catering := True\<rparr>) = Some 350"
    "getAdditionalServicesCost (no_services\<lparr>concierge := True\<rparr>) = Some 200"
    "getAdditionalServicesCost (no_services\<lparr>hotelBooking := True\<rparr>) = Some 150"
    by (simp_all add: getAdditionalServicesCost_spec serviceCost_spec_def no_services_def)
  have cost: "additionalServicesCost st = Some (serviceCost_spec (selectedServices st))" for st
    by (simp add: additionalServicesCost_def getAdditionalServicesCost_spec)
  have total: "totalPrice basePrice st = fl (basePrice + serviceCost_spec (selectedServices st))"
    for st
    by (simp add: totalPrice_def cost dadd_def)
  have code: "shown_code (formatPrice (totalPrice basePrice st) cur) = code cur"
    by (simp add: formatPrice_def)
  have units: "\<exists>n. shown_units (formatPrice (totalPrice basePrice st) cur) = Some n \<and>
      \<bar>of_int n - x\<bar> \<le> 1 / 2"
    if "fl (basePrice + serviceCost_spec (selectedServices st)) = Some t"
      "fl (rate cur) = Some r" "fl (t * r) = Some x" for t r x
    using formatPrice_units [OF that(2,3)] that(1) by (auto simp: total)
  have none: "totalPrice basePrice (st\<lparr>selectedServices := no_services\<rparr>) = Some basePrice"
    using assms by (simp add: total serviceCost_spec_def no_services_def fl_double)
  have all: "totalPrice basePrice (st\<lparr>selectedServices := all_services\<rparr>) = fl (basePrice + 950)"
    by (simp add: total serviceCost_spec_def all_services_def)
  have "fl (basePrice * 1) = Some basePrice" using assms by (simp add: fl_double)
  from formatPrice_units [OF rate_EUR(1) this]
  have eur_none: "\<exists>n. formatPrice (totalPrice basePrice (st\<lparr>selectedServices := no_services\<rparr>)) EUR =
      \<lparr>shown_code = ''EUR'', shown_units = Some n\<rparr> \<and> \<bar>of_int n - basePrice\<bar> \<le> 1 / 2"
    by (simp add: none rate_EUR(2))
  have eur_all: "\<exists>n. formatPrice (totalPrice basePrice (st\<lparr>selectedServices := all_services\<rparr>)) EUR =
      \<lparr>shown_code = ''EUR'', shown_units = Some n\<rparr> \<and> \<bar>of_int n - t\<bar> \<le> 1 / 2"
    if t: "fl (basePrice + 950) = Some t" for t
  proof -
    have "fl (t * 1) = Some t" using fl_is_double [OF t] by (simp add: fl_double)
    from formatPrice_units [OF rate_EUR(1) this] show ?thesis
      by (simp add: all t rate_EUR(2))
  qed
  from prices cost total code units none all eur_none eur_all show ?thesis by blast
qed

text \<open>
  The contract's example: base price 10000 with catering, in GBP, displays 8798; the
  product of 10350 and 0.85 is 8797.5 in doubles.
\<close>

theorem C4_total_displayed_witness:
  "totalPrice 10000 ((BookingSummary_mount [])\<lparr>selectedServices :=
      no_services\<lparr>catering := True\<rparr>\<rparr>) = Some 10350
   \<and> formatPrice (totalPrice 10000 ((BookingSummary_mount [])\<lparr>selectedServices :=
      no_services\<lparr>catering := True\<rparr>\<rparr>)) GBP = \<lparr>shown_code = ''GBP'', shown_units = Some 8798\<rparr>"
proof -
  let ?st = "(BookingSummary_mount [])\<lparr>selectedServices := no_services\<lparr>catering := True\<rparr>\<rparr>"
  have "is_double 10000" by (simp add: is_double_numeral)
  from C4_total_displayed [OF this, of ?st GBP]
  have "totalPrice 10000 ?st = fl (10000 + serviceCost_spec (selectedServices ?st))"
    by (rule conjunct2 [THEN conjunct2, THEN conjunct2, THEN conjunct2, THEN conjunct2,
          THEN conjunct1])
  then have t: "totalPrice 10000 ?st = Some 10350"
    by (simp add: serviceCost_spec_def no_services_def fl_numeral)
  have "formatPrice (Some 10350) GBP = \<lparr>shown_code = ''GBP'', shown_units = Some 8798\<rparr>"
    by (simp add: formatPrice_def rate_GBP dmul_10350_085 Intl_round_def)
  with t show ?thesis by simp
qed

text \<open>
  Claim C1 says that the displayed range is taken from the total, services included. The
  code takes it from the base price: with base price 1000 and all four services selected
  the range is 900 to 1100, where the total 1950 would give 1755 to 2145.
\<close>

theorem C1_range_counterexample:
  "minPrice 1000 = Some 900 \<and> maxPrice 1000 = Some 1100 \<and>
   totalPrice 1000 ((BookingSummary_mount [])\<lparr>selectedServices := all_services\<rparr>) = Some 1950 \<and>
   map_option Math_floor (dmul (totalPrice 1000
     ((BookingSummary_mount [])\<lparr>selectedServices := all_services\<rparr>)) (fl (9 / 10))) = Some 1755 \<and>
   map_option Math_ceil (dmul (totalPrice 1000
     ((BookingSummary_mount [])\<lparr>selectedServices := all_services\<rparr>)) (fl (11 / 10))) = Some 2145"
  by (simp add: minPrice_def maxPrice_def Math_floor_def Math_ceil_def totalPrice_def
      additionalServicesCost_def getAdditionalServicesCost_spec serviceCost_spec_def
      all_services_def dadd_def fl_0_9 fl_1_1 fl_numeral dmul_1000_09 dmul_1000_11
      dmul_1950_09 dmul_1950_11)

text \<open>The double products with 0.9 and 1.1 are close to the exact ones.\<close>

lemma near_0_9:
  assumes "fl (b * (8106479329266893 / 9007199254740992)) = Some p"
  shows "\<bar>p - b * (9 / 10)\<bar> \<le> \<bar>b\<bar> / 2 ^ 52 + tiny"
proof -
  let ?k = "8106479329266893 / 9007199254740992 :: real"
  have "\<bar>p - b * ?k\<bar> \<le> \<bar>b * ?k\<bar> / 2 ^ 53 + tiny" by (rule fl_error [OF assms])
  moreover have "\<bar>b * ?k\<bar> = \<bar>b\<bar> * ?k" by (simp add: abs_mult)
  moreover have "\<bar>b * ?k - b * (9 / 10)\<bar> = \<bar>b\<bar> * (1 / 45035996273704960)"
  proof -
    have "b * ?k - b * (9 / 10) = b * (1 / 45035996273704960)" by (simp add: algebra_simps)
    then show ?thesis by (simp add: abs_mult)
  qed
  moreover have "\<bar>p - b * (9 / 10)\<bar> \<le> \<bar>p - b * ?k\<bar> + \<bar>b * ?k - b * (9 / 10)\<bar>" by linarith
  moreover have "0 \<le> \<bar>b\<bar>" by simp
  ultimately show ?thesis by (simp add: field_simps)
qed

lemma near_1_1:
  assumes "fl (b * (2476979795053773 / 2251799813685248)) = Some q"
  shows "\<bar>q - b * (11 / 10)\<bar> \<le> \<bar>b\<bar> / 2 ^ 52 + tiny"
proof -
  let ?k = "2476979795053773 / 2251799813685248 :: real"
  have "\<bar>q - b * ?k\<bar> \<le> \<bar>b * ?k\<bar> / 2 ^ 53 + tiny" by (rule fl_error [OF assms])
  moreover have "\<bar>b * ?k\<bar> = \<bar>b\<bar> * ?k" by (simp add: abs_mult)
  moreover have "\<bar>b * ?k - b * (11 / 10)\<bar> = \<bar>b\<bar> * (1 / 11258999068426240)"
  proof -
    have "b * ?k - b * (11 / 10) = b * (1 / 11258999068426240)" by (simp add: algebra_simps)
    then show ?thesis by (simp add: abs_mult)
  qed
  moreover have "\<bar>q - b * (11 / 10)\<bar> \<le> \<bar>q - b * ?k\<bar> + \<bar>b * ?k - b * (11 / 10)\<bar>" by linarith
  moreover have "0 \<le> \<bar>b\<bar>" by simp
  ultimately show ?thesis by (simp add: field_simps)
qed

text \<open>
  Claim C1, amended. The range is taken from the base itinerary price alone: the selected
  services do not enter it. Its lower bound is the floor of the product of the base price
  and 0.9 and its upper bound the ceiling of the product of the base price and 1.1, both
  products being formed in doubles, before currency conversion. A double product is within
  \<open>\<bar>basePrice\<bar> / 2 ^ 52 + tiny\<close> of the exact one, which can move a bound across
  an integer: base price 100 gives 90 and 111. Each bound is then displayed like every
  price, multiplied by the rate and shown without fraction digits; in EUR the bounds are
  displayed as they are. The range is that of the total when no service is selected.
\<close>

theorem C1_range_of_base_price:
  "priceRange basePrice (st\<lparr>selectedServices := sel\<rparr>) = priceRange basePrice st
   \<and> (\<forall>p. fl (basePrice * (8106479329266893 / 9007199254740992)) = Some p \<longrightarrow>
         minPrice basePrice = Some \<lfloor>p\<rfloor> \<and> \<bar>p - basePrice * (9 / 10)\<bar> \<le> \<bar>basePrice\<bar> / 2 ^ 52 + tiny)
   \<and> (\<forall>q. fl (basePrice * (2476979795053773 / 2251799813685248)) = Some q \<longrightarrow>
         maxPrice basePrice = Some \<lceil>q\<rceil> \<and> \<bar>q - basePrice * (11 / 10)\<bar> \<le> \<bar>basePrice\<bar> / 2 ^ 52 + tiny)
   \<and> (\<forall>lo hi r x y. minPrice basePrice = Some lo \<longrightarrow> maxPrice basePrice = Some hi \<longrightarrow>
         fl (rate (selectedCurrency st)) = Some r \<longrightarrow>
         fl (of_int lo * r) = Some x \<longrightarrow> fl (of_int hi * r) = Some y \<longrightarrow>
         (\<exists>m n. priceRange basePrice st =
            (\<lparr>shown_code = code (selectedCurrency st), shown_units = Some m\<rparr>,
             \<lparr>shown_code = code (selectedCurrency st), shown_units = Some n\<rparr>) \<and>
            \<bar>of_int m - x\<bar> \<le> 1 / 2 \<and> \<bar>of_int n - y\<bar> \<le> 1 / 2))
   \<and> (\<forall>lo hi. minPrice basePrice = Some lo \<longrightarrow> maxPrice basePrice = Some hi \<longrightarrow>
         \<bar>lo\<bar> < 2 ^ 53 \<longrightarrow> \<bar>hi\<bar> < 2 ^ 53 \<longrightarrow> selectedCurrency st = EUR \<longrightarrow>
         priceRange basePrice st =
           (\<lparr>shown_code = ''EUR'', shown_units = Some lo\<rparr>,
            \<lparr>shown_code = ''EUR'', shown_units = Some hi\<rparr>))
   \<and> (is_double basePrice \<longrightarrow> selectedServices st = no_services \<longrightarrow>
         minPrice basePrice = map_option Math_floor (dmul (totalPrice basePrice st) (fl (9 / 10))) \<and>
         maxPrice basePrice = map_option Math_ceil (dmul (totalPrice basePrice st) (fl (11 / 10))))
   \<and> minPrice 100 = Some 90 \<and> maxPrice 100 = Some 111"
proof -
  have frame: "priceRange basePrice (st\<lparr>selectedServices := sel\<rparr>) = priceRange basePrice st"
    by (simp add: priceRange_def)
  have lo: "minPrice basePrice = Some \<lfloor>p\<rfloor> \<and>
      \<bar>p - basePrice * (9 / 10)\<bar> \<le> \<bar>basePrice\<bar> / 2 ^ 52 + tiny"
    if "fl (basePrice * (8106479329266893 / 9007199254740992)) = Some p" for p
    using that near_0_9 [OF that] by (simp add: minPrice_def dmul_def fl_0_9 Math_floor_def)
  have hi: "maxPrice basePrice = Some \<lceil>q\<rceil> \<and>
      \<bar>q - basePrice * (11 / 10)\<bar> \<le> \<bar>basePrice\<bar> / 2 ^ 52 + tiny"
    if "fl (basePrice * (2476979795053773 / 2251799813685248)) = Some q" for q
    using that near_1_1 [OF that] by (simp add: maxPrice_def dmul_def fl_1_1 Math_ceil_def)
  have shown: "\<exists>m n. priceRange basePrice st =
            (\<lparr>shown_code = code (selectedCurrency st), shown_units = Some m\<rparr>,
             \<lparr>shown_code = code (selectedCurrency st), shown_units = Some n\<rparr>) \<and>
            \<bar>of_int m - x\<bar> \<le> 1 / 2 \<and> \<bar>of_int n - y\<bar> \<le> 1 / 2"
    if "minPrice basePrice = Some lo" "maxPrice basePrice = Some hi"
      "fl (rate (selectedCurrency st)) = Some r"
      "fl (of_int lo * r) = Some x" "fl (of_int hi * r) = Some y" for lo hi r x y
    using formatPrice_units [OF that(3,4)] formatPrice_units [OF that(3,5)] that(1,2)
    by (auto simp: priceRange_def)
  have eur: "priceRange basePrice st =
           (\<lparr>shown_code = ''EUR'', shown_units = Some lo\<rparr>,
            \<lparr>shown_code = ''EUR'', shown_units = Some hi\<rparr>)"
    if "minPrice basePrice = Some lo" "maxPrice basePrice = Some hi"
      "\<bar>lo\<bar> < 2 ^ 53" "\<bar>hi\<bar> < 2 ^ 53" "selectedCurrency st = EUR" for lo hi
    using that by (simp add: priceRange_def formatPrice_EUR_int)
  have total: "minPrice basePrice = map_option Math_floor (dmul (totalPrice basePrice st) (fl (9 / 10))) \<and>
         maxPrice basePrice = map_option Math_ceil (dmul (totalPrice basePrice st) (fl (11 / 10)))"
    if "is_double basePrice" "selectedServices st = no_services"
    using that
    by (simp add: minPrice_def maxPrice_def totalPrice_def additionalServicesCost_def
        getAdditionalServicesCost_spec serviceCost_spec_def no_services_def dadd_def fl_double)
  have ex: "minPrice 100 = Some 90" "maxPrice 100 = Some 111"
    by (simp_all add: minPrice_def maxPrice_def fl_0_9 fl_1_1 dmul_100_09 dmul_100_11
        Math_floor_def Math_ceil_def)
  from frame lo hi shown eur total ex show ?thesis by blast
qed

theorem C1_range_of_base_price_witness:
  "priceRange 100 ((BookingSummary_mount [])\<lparr>selectedServices := all_services\<rparr>) =
     (\<lparr>shown_code = ''EUR'', shown_units = Some 90\<rparr>,
      \<lparr>shown_code = ''EUR'', shown_units = Some 111\<rparr>)"
  using C1_range_of_base_price [where basePrice = 100 and st = "BookingSummary_mount []"
      and sel = all_services]
  by (simp add: BookingSummary_mount_def totalSteps_effect_def BookingSummary_initial_def
      currencies_def)

text \<open>
  Further upper bounds that the double product moves across an integer: 50, 90 and 25000
  give 56, 100 and 27501, where the exact products are 55, 99 and 27500.
\<close>

lemma maxPrice_examples:
  "maxPrice 50 = Some 56" "maxPrice 90 = Some 100" "maxPrice 25000 = Some 27501"
proof -
  have "fl (50 * (2476979795053773 / 2251799813685248)) = Some (7740561859543041 / 140737488355328)"
    by (rule fl_eval [where e = 5]) (simp_all add: rne_def huge_def)
  then show "maxPrice 50 = Some 56"
    by (simp add: maxPrice_def fl_1_1 dmul_def Math_ceil_def)
  have "fl (90 * (2476979795053773 / 2251799813685248)) = Some (6966505673588737 / 70368744177664)"
    by (rule fl_eval [where e = 6]) (simp_all add: rne_def huge_def)
  then show "maxPrice 90 = Some 100"
    by (simp add: maxPrice_def fl_1_1 dmul_def Math_ceil_def)
  have "fl (25000 * (2476979795053773 / 2251799813685248)) = Some (7559142440960001 / 274877906944)"
    by (rule fl_eval [where e = 14]) (simp_all add: rne_def huge_def)
  then show "maxPrice 25000 = Some 27501"
    by (simp add: maxPrice_def fl_1_1 dmul_def Math_ceil_def)
qed

section \<open>The wizards: results\<close>

text \<open>
  Claim C9. In a state whose current step is 1, the back transition of either wizard
  calls the cancel collaborator (\<open>onBack\<close> of the booking summary, \<open>onClose\<close> of the
  checkout form) exactly once, makes no other call, and returns the state unchanged.
\<close>

theorem C9_back_at_first_step:
  "(currentStep st = 1 \<longrightarrow> BookingSummary_prevStep st = (st, [OnBack]))
   \<and> (currentStep st' = 1 \<longrightarrow> CheckoutForm_prevStep st' = (st', [OnClose]))"
  by (simp add: BookingSummary_prevStep_def CheckoutForm_prevStep_def)

theorem C9_back_at_first_step_witness:
  "BookingSummary_prevStep (BookingSummary_mount []) = (BookingSummary_mount [], [OnBack])
   \<and> CheckoutForm_prevStep (CheckoutForm_initial example_props None) =
       (CheckoutForm_initial example_props None, [OnClose])"
  using C9_back_at_first_step [of "BookingSummary_mount []" "CheckoutForm_initial example_props None"]
  by (simp add: BookingSummary_mount_def totalSteps_effect_def BookingSummary_initial_def
      CheckoutForm_initial_def)

lemma BookingSummary_fire_steps:
  assumes "1 \<le> currentStep st" "currentStep st \<le> totalSteps st"
  shows "1 \<le> currentStep (fst (BookingSummary_fire ev st))
    \<and> currentStep (fst (BookingSummary_fire ev st)) \<le> totalSteps (fst (BookingSummary_fire ev st))
    \<and> totalSteps (fst (BookingSummary_fire ev st)) = totalSteps st"
  using assms
  by (cases ev)
     (auto simp: BookingSummary_nextStep_def BookingSummary_prevStep_def handleRequestQuote_def
        handleServiceToggle_def handleContactInfoChange_def)

lemma BookingSummary_foldl_steps:
  assumes "1 \<le> currentStep st" "currentStep st \<le> totalSteps st"
  shows "1 \<le> currentStep (foldl (\<lambda>st ev. fst (BookingSummary_fire ev st)) st evs)
    \<and> currentStep (foldl (\<lambda>st ev. fst (BookingSummary_fire ev st)) st evs)
        \<le> totalSteps (foldl (\<lambda>st ev. fst (BookingSummary_fire ev st)) st evs)
    \<and> totalSteps (foldl (\<lambda>st ev. fst (BookingSummary_fire ev st)) st evs) = totalSteps st"
  using assms
proof (induction evs arbitrary: st)
  case Nil
  then show ?case by simp
next
  case (Cons ev evs)
  from BookingSummary_fire_steps [OF Cons.prems, of ev] Cons.IH [of "fst (BookingSummary_fire ev st)"]
  show ?case by simp
qed

lemma CheckoutForm_fire_steps:
  assumes "1 \<le> currentStep st" "currentStep st \<le> 2" "currentStep st = 2 \<Longrightarrow> filled st"
  shows "1 \<le> currentStep (fst (CheckoutForm_fire props ev st))
    \<and> currentStep (fst (CheckoutForm_fire props ev st)) \<le> 2
    \<and> (currentStep (fst (CheckoutForm_fire props ev st)) = 2 \<longrightarrow>
         filled (fst (CheckoutForm_fire props ev st)))"
proof (cases ev)
  case (CfInput f v)
  then show ?thesis using assms
    by (auto simp: handleInputChange_def)
next
  case CfNext
  then show ?thesis using assms
    by (auto simp: CheckoutForm_nextStep_def CheckoutForm_isFormValid_def handlePayment_begin_def
        filled_def Let_def)
next
  case CfBack
  then show ?thesis using assms
    by (auto simp: CheckoutForm_prevStep_def)
next
  case CfClose
  then show ?thesis using assms by auto
next
  case (CfSettle r)
  then show ?thesis using assms
    by (auto simp: handlePayment_resume_def failed_def filled_def
        split: reply.splits option.splits)
qed

lemma CheckoutForm_foldl_steps:
  assumes "1 \<le> currentStep st" "currentStep st \<le> 2" "currentStep st = 2 \<Longrightarrow> filled st"
  shows "1 \<le> currentStep (foldl (\<lambda>st ev. fst (CheckoutForm_fire props ev st)) st evs)
    \<and> currentStep (foldl (\<lambda>st ev. fst (CheckoutForm_fire props ev st)) st evs) \<le> 2
    \<and> (currentStep (foldl (\<lambda>st ev. fst (CheckoutForm_fire props ev st)) st evs) = 2 \<longrightarrow>
         filled (foldl (\<lambda>st ev. fst (CheckoutForm_fire props ev st)) st evs))"
  using assms
proof (induction evs arbitrary: st)
  case Nil
  then show ?case by simp
next
  case (Cons ev evs)
  have "1 \<le> currentStep (fst (CheckoutForm_fire props ev st))"
    "currentStep (fst (CheckoutForm_fire props ev st)) \<le> 2"
    "currentStep (fst (CheckoutForm_fire props ev st)) = 2 \<Longrightarrow>
       filled (fst (CheckoutForm_fire props ev st))"
    using CheckoutForm_fire_steps [OF Cons.prems, of props ev] by simp_all
  from Cons.IH [OF this] show ?case by simp
qed

lemma CheckoutForm_run_steps:
  "1 \<le> currentStep (CheckoutForm_run props usr evs)
   \<and> currentStep (CheckoutForm_run props usr evs) \<le> 2
   \<and> (currentStep (CheckoutForm_run props usr evs) = 2 \<longrightarrow>
        filled (CheckoutForm_run props usr evs))"
  unfolding CheckoutForm_run_def
  by (rule CheckoutForm_foldl_steps) (simp_all add: CheckoutForm_initial_def)

text \<open>
  Claim C5. Whatever the user does after mounting (next and back among it), the current
  step of the booking summary stays between 1 and \<open>totalSteps\<close>, which is 4 when
  the itinerary has stops and 3 when it has none; the current step of the checkout form
  stays between 1 and 2.
\<close>

theorem C5_step_in_range:
  "1 \<le> currentStep (BookingSummary_run stops evs)
   \<and> currentStep (BookingSummary_run stops evs) \<le> totalSteps (BookingSummary_run stops evs)
   \<and> totalSteps (BookingSummary_run stops evs) = (if stops \<noteq> [] then 4 else 3)
   \<and> 1 \<le> currentStep (CheckoutForm_run props usr cevs)
   \<and> currentStep (CheckoutForm_run props usr cevs) \<le> 2"
proof -
  have "1 \<le> currentStep (BookingSummary_mount stops)"
    "currentStep (BookingSummary_mount stops) \<le> totalSteps (BookingSummary_mount stops)"
    by (simp_all add: BookingSummary_mount_def totalSteps_effect_def BookingSummary_initial_def)
  from BookingSummary_foldl_steps [OF this, of evs]
  have "1 \<le> currentStep (BookingSummary_run stops evs)
   \<and> currentStep (BookingSummary_run stops evs) \<le> totalSteps (BookingSummary_run stops evs)
   \<and> totalSteps (BookingSummary_run stops evs) = (if stops \<noteq> [] then 4 else 3)"
    by (simp add: BookingSummary_run_def BookingSummary_mount_def totalSteps_effect_def
        BookingSummary_initial_def)
  with CheckoutForm_run_steps [of props usr cevs] show ?thesis by simp
qed

theorem C5_step_in_range_witness:
  "currentStep (BookingSummary_run [stop_at 1 10] [BsNext, BsNext, BsBack, BsNext, BsNext, BsNext]) = 3
   \<and> totalSteps (BookingSummary_run [stop_at 1 10] [BsNext, BsNext, BsBack, BsNext, BsNext, BsNext]) = 4
   \<and> currentStep (BookingSummary_run [] [BsBack, BsNext, BsNext, BsNext]) = 3
   \<and> totalSteps (BookingSummary_run [] [BsBack, BsNext, BsNext, BsNext]) = 3
   \<and> currentStep (CheckoutForm_run example_props None [CfBack, CfNext, CfNext, CfNext]) = 2"
  using C5_step_in_range [of "[stop_at 1 10]" "[BsNext, BsNext, BsBack, BsNext, BsNext, BsNext]"
      example_props None "[CfBack, CfNext, CfNext, CfNext]"]
    C5_step_in_range [of "[]" "[BsBack, BsNext, BsNext, BsNext]"
      example_props None "[]"]
  by (simp add: BookingSummary_run_def BookingSummary_mount_def totalSteps_effect_def
      BookingSummary_initial_def BookingSummary_nextStep_def BookingSummary_prevStep_def
      BookingSummary_isFormValid_def CheckoutForm_run_def CheckoutForm_initial_def
      CheckoutForm_nextStep_def CheckoutForm_prevStep_def CheckoutForm_isFormValid_def
      handlePayment_begin_def example_props_def or_else_def startsWith_def Let_def)

text \<open>
  Claim C8 says that from step 1 of the checkout form the next transition advances
  as soon as name, email and phone are filled in. The next button is also disabled while
  a submission is in flight: after submitting at step 2 and going back while the answer
  is pending, the form is at step 1 with all three fields filled, and next does nothing.
\<close>

theorem C8_next_while_loading_counterexample:
  "currentStep (CheckoutForm_run example_props None [CfNext, CfNext, CfBack]) = 1
   \<and> name (formData (CheckoutForm_run example_props None [CfNext, CfNext, CfBack])) = ''Ada''
   \<and> email (formData (CheckoutForm_run example_props None [CfNext, CfNext, CfBack])) = ''ada@example.org''
   \<and> phone (formData (CheckoutForm_run example_props None [CfNext, CfNext, CfBack])) = ''5550100''
   \<and> loading (CheckoutForm_run example_props None [CfNext, CfNext, CfBack])
   \<and> currentStep (CheckoutForm_run example_props None [CfNext, CfNext, CfBack, CfNext]) = 1"
  by (simp add: CheckoutForm_run_def CheckoutForm_initial_def
      CheckoutForm_nextStep_def CheckoutForm_prevStep_def CheckoutForm_isFormValid_def
      handlePayment_begin_def example_props_def or_else_def startsWith_def Let_def)

text \<open>
  Claim C8, amended. At step 1 of the checkout form the next transition changes nothing
  when one of name, email, phone is empty; it advances the current step to 2 (and does
  nothing else) when all three are filled in, no submission is in flight and none has
  succeeded; while a submission is in flight it changes nothing.
\<close>

theorem C8_next_from_contact_step:
  assumes "currentStep st = 1"
  shows "(name (formData st) = '''' \<or> email (formData st) = '''' \<or> phone (formData st) = ''''
            \<longrightarrow> CheckoutForm_fire props CfNext st = (st, []))
    \<and> (name (formData st) \<noteq> '''' \<and> email (formData st) \<noteq> '''' \<and> phone (formData st) \<noteq> ''''
          \<and> \<not> loading st \<and> \<not> success st
            \<longrightarrow> CheckoutForm_fire props CfNext st = (st\<lparr>currentStep := 2\<rparr>, []))
    \<and> (loading st \<or> success st \<longrightarrow> CheckoutForm_fire props CfNext st = (st, []))"
  using assms
  by (auto simp: CheckoutForm_nextStep_def CheckoutForm_isFormValid_def)

theorem C8_next_from_contact_step_witness:
  "CheckoutForm_fire example_props CfNext (CheckoutForm_initial example_props None) =
     ((CheckoutForm_initial example_props None)\<lparr>currentStep := 2\<rparr>, [])
   \<and> CheckoutForm_fire example_props CfNext
       (CheckoutForm_run example_props None [CfInput Email '''']) =
     (CheckoutForm_run example_props None [CfInput Email ''''], [])"
  using C8_next_from_contact_step [of "CheckoutForm_initial example_props None" example_props]
    C8_next_from_contact_step [of "CheckoutForm_run example_props None [CfInput Email '''']" example_props]
  by (simp add: CheckoutForm_run_def CheckoutForm_initial_def handleInputChange_def
      example_props_def or_else_def)

text \<open>
  Claim C6. A submission is the next transition at step 2 of the checkout form, in a
  state the form can reach, with the button enabled. It makes exactly one call: a
  checkout session for a \<open>fixed_offer\<close> whose identifier does not start with
  \<open>custom-\<close> and for an \<open>empty_leg\<close>, a payment (quote) request for every other
  kind and identifier. The required fields are filled in every state at step 2, so the
  validation in \<open>handlePayment\<close> never stops a submission.
\<close>

theorem C6_submission_routing:
  assumes "st = CheckoutForm_run props usr evs"
    and "currentStep st = 2" and "\<not> loading st" and "\<not> success st"
  shows "snd (CheckoutForm_fire props CfNext st) =
     (if (offerType props = ''fixed_offer'' \<and> \<not> startsWith (offerId props) ''custom-'')
         \<or> offerType props = ''empty_leg''
      then [CreateCheckoutSession (offerId props) (offerType props)]
      else [SendPaymentRequest (offerId props) (offerType props) (email (formData st))])"
proof -
  have "filled st"
    using CheckoutForm_run_steps [of props usr evs] assms(1,2) by simp
  then show ?thesis
    using assms(2-4)
    by (simp add: CheckoutForm_nextStep_def CheckoutForm_isFormValid_def
        handlePayment_begin_def filled_def Let_def)
qed

theorem C6_submission_routing_witness:
  "snd (CheckoutForm_fire example_props CfNext (CheckoutForm_run example_props None [CfNext])) =
     [SendPaymentRequest ''custom-1700000000000'' ''fixed_offer'' ''ada@example.org'']
   \<and> snd (CheckoutForm_fire (example_props\<lparr>offerId := ''offer-7''\<rparr>) CfNext
       (CheckoutForm_run (example_props\<lparr>offerId := ''offer-7''\<rparr>) None [CfNext])) =
     [CreateCheckoutSession ''offer-7'' ''fixed_offer'']
   \<and> snd (CheckoutForm_fire (example_props\<lparr>offerType := ''empty_leg''\<rparr>) CfNext
       (CheckoutForm_run (example_props\<lparr>offerType := ''empty_leg''\<rparr>) None [CfNext])) =
     [CreateCheckoutSession ''custom-1700000000000'' ''empty_leg'']
   \<and> snd (CheckoutForm_fire (example_props\<lparr>offerType := ''visa''\<rparr>) CfNext
       (CheckoutForm_run (example_props\<lparr>offerType := ''visa''\<rparr>) None [CfNext])) =
     [SendPaymentRequest ''custom-1700000000000'' ''visa'' ''ada@example.org'']"
  using C6_submission_routing [of _ example_props None "[CfNext]", OF refl]
    C6_submission_routing [of _ "example_props\<lparr>offerId := ''offer-7''\<rparr>" None "[CfNext]", OF refl]
    C6_submission_routing [of _ "example_props\<lparr>offerType := ''empty_leg''\<rparr>" None "[CfNext]", OF refl]
    C6_submission_routing [of _ "example_props\<lparr>offerType := ''visa''\<rparr>" None "[CfNext]", OF refl]
  by (simp add: CheckoutForm_run_def CheckoutForm_initial_def
      CheckoutForm_nextStep_def CheckoutForm_isFormValid_def
      example_props_def or_else_def startsWith_def)

section \<open>The endpoint: results\<close>

text \<open>
  Claim C7 says that every request that misses one of the five fields is answered with
  status 400. A request whose body is \<open>null\<close> carries none of the fields, and neither
  does one whose body is not JSON: both fail before the test of the fields is reached,
  in the destructuring and in \<open>request.json()\<close>, and the \<open>catch\<close> answers with
  status 500.
\<close>

theorem C7_null_body_counterexample:
  "missing body_email Null
   \<and> POST example_stripe Null = (Error ''Failed to create subscription'' 500, [])
   \<and> status (fst (POST example_stripe Null)) = 500
   \<and> missing body_email Malformed
   \<and> POST example_stripe Malformed = (Error ''Failed to create subscription'' 500, [])
   \<and> status (fst (POST example_stripe Malformed)) = 500"
  by (simp add: missing_def POST_def status_def)

text \<open>
  Claim C7, amended. A request that misses one of \<open>tierId\<close>, \<open>price\<close>,
  \<open>currency\<close>, \<open>name\<close>, \<open>email\<close> never reaches the payment provider, so no
  session is created. When its body is a JSON value other than \<open>null\<close> the answer is
  the error \<open>Missing required parameters\<close> with status 400; when its body is \<open>null\<close>
  or not JSON the answer is the error \<open>Failed to create subscription\<close> with status
  500.
\<close>

theorem C7_missing_field_rejected:
  assumes "missing body_tierId request \<or> missing body_price request \<or>
     missing body_currency request \<or> missing body_name request \<or> missing body_email request"
  shows "(\<forall>b. request = Fields b \<longrightarrow>
            POST provider request = (Error ''Missing required parameters'' 400, []))
     \<and> (request = Null \<or> request = Malformed \<longrightarrow>
            POST provider request = (Error ''Failed to create subscription'' 500, []))
     \<and> snd (POST provider request) = []
     \<and> (status (fst (POST provider request)) = 400 \<longleftrightarrow> (\<exists>b. request = Fields b))
     \<and> (status (fst (POST provider request)) = 500 \<longleftrightarrow> request = Null \<or> request = Malformed)"
  using assms by (cases request) (auto simp: missing_def POST_def status_def)

theorem C7_missing_field_rejected_witness:
  "POST example_stripe (Fields (example_body\<lparr>body_email := None\<rparr>)) =
     (Error ''Missing required parameters'' 400, [])
   \<and> status (fst (POST example_stripe (Fields (example_body\<lparr>body_email := None\<rparr>)))) = 400
   \<and> POST example_stripe (Fields example_body) =
     (SessionId ''cs_1'', [Customers_create, Sessions_create ''subscription''])"
  using C7_missing_field_rejected [of "Fields (example_body\<lparr>body_email := None\<rparr>)" example_stripe]
  by (simp add: missing_def POST_def example_body_def example_stripe_def)

section \<open>The distance: results\<close>

subsection \<open>Error bounds\<close>

text \<open>
  Rounding a number of magnitude at most 2 moves it by less than \<open>10 ^ -12\<close>, and one of
  magnitude at most a million by less than \<open>10 ^ -9\<close>. An accurate library is within
  \<open>10 ^ -12\<close> of the exact functions.
\<close>

lemma tiny_le: "tiny \<le> 1 / 2 ^ 53"
proof -
  have "(2::real) powi (- 1075) \<le> 2 powi (- 53)"
    by (rule power_int_increasing) simp_all
  also have "(2::real) powi (- 53) = 1 / 2 ^ 53"
    by (simp add: power_int_minus field_simps)
  finally show ?thesis by (simp only: tiny_def)
qed

lemma fl_small:
  assumes "\<bar>x\<bar> \<le> 2"
  shows "\<exists>r. fl x = Some r \<and> x - 1 / 1000000000000 \<le> r \<and> r \<le> x + 1 / 1000000000000"
proof -
  have "\<bar>x\<bar> \<le> 2 ^ 1" using assms by simp
  then obtain r where r: "fl x = Some r" using fl_finite [of x 1] by auto
  have "\<bar>r - x\<bar> \<le> \<bar>x\<bar> / 2 ^ 53 + tiny" by (rule fl_error [OF r])
  also have "\<dots> \<le> 2 / 2 ^ 53 + 1 / 2 ^ 53"
    using assms tiny_le by (intro add_mono divide_right_mono) simp_all
  also have "\<dots> \<le> 1 / 1000000000000" by simp
  finally have "\<bar>r - x\<bar> \<le> 1 / 1000000000000" .
  then have "x - 1 / 1000000000000 \<le> r \<and> r \<le> x + 1 / 1000000000000" by linarith
  with r show ?thesis by blast
qed

lemma fl_mid:
  assumes "\<bar>x\<bar> \<le> 1000000"
  shows "\<exists>r. fl x = Some r \<and> x - 1 / 1000000000 \<le> r \<and> r \<le> x + 1 / 1000000000"
proof -
  have "\<bar>x\<bar> \<le> 2 ^ 20" using assms by simp
  then obtain r where r: "fl x = Some r" using fl_finite [of x 20] by auto
  have "\<bar>r - x\<bar> \<le> \<bar>x\<bar> / 2 ^ 53 + tiny" by (rule fl_error [OF r])
  also have "\<dots> \<le> 1000000 / 2 ^ 53 + 1 / 2 ^ 53"
    using assms tiny_le by (intro add_mono divide_right_mono) simp_all
  also have "\<dots> \<le> 1 / 1000000000" by simp
  finally have "\<bar>r - x\<bar> \<le> 1 / 1000000000" .
  then have "x - 1 / 1000000000 \<le> r \<and> r \<le> x + 1 / 1000000000" by linarith
  with r show ?thesis by blast
qed

lemma near:
  fixes r x :: real
  assumes "\<bar>r - x\<bar> \<le> 1 / 2 ^ 40"
  shows "x - 1 / 1000000000000 \<le> r \<and> r \<le> x + 1 / 1000000000000"
proof -
  have "(1::real) / 2 ^ 40 \<le> 1 / 1000000000000" by simp
  with assms have "\<bar>r - x\<bar> \<le> 1 / 1000000000000" by (rule order_trans)
  then show ?thesis by linarith
qed

lemma accurate_sin:
  assumes "accurate lib" "\<bar>x\<bar> \<le> 2"
  shows "\<exists>r. lib_sin lib x = Some r \<and> sin x - 1 / 1000000000000 \<le> r \<and>
    r \<le> sin x + 1 / 1000000000000"
proof -
  from assms obtain r where "lib_sin lib x = Some r" "\<bar>r - sin x\<bar> \<le> 1 / 2 ^ 40"
    unfolding accurate_def by blast
  then show ?thesis using near [of r "sin x"] by blast
qed

lemma accurate_cos:
  assumes "accurate lib" "\<bar>x\<bar> \<le> 2"
  shows "\<exists>r. lib_cos lib x = Some r \<and> cos x - 1 / 1000000000000 \<le> r \<and>
    r \<le> cos x + 1 / 1000000000000"
proof -
  from assms obtain r where "lib_cos lib x = Some r" "\<bar>r - cos x\<bar> \<le> 1 / 2 ^ 40"
    unfolding accurate_def by blast
  then show ?thesis using near [of r "cos x"] by blast
qed

lemma accurate_sqrt:
  assumes "accurate lib" "0 \<le> x" "x \<le> 2"
  shows "\<exists>r. lib_sqrt lib x = Some r \<and> sqrt x - 1 / 1000000000000 \<le> r \<and>
    r \<le> sqrt x + 1 / 1000000000000"
proof -
  from assms obtain r where "lib_sqrt lib x = Some r" "\<bar>r - sqrt x\<bar> \<le> 1 / 2 ^ 40"
    unfolding accurate_def by blast
  then show ?thesis using near [of r "sqrt x"] by blast
qed

lemma accurate_atan2:
  assumes "accurate lib" "0 \<le> y" "y \<le> 2" "0 < x" "x \<le> 2"
  shows "\<exists>r. lib_atan2 lib y x = Some r \<and> arctan (y / x) - 1 / 1000000000000 \<le> r \<and>
    r \<le> arctan (y / x) + 1 / 1000000000000"
proof -
  from assms obtain r where "lib_atan2 lib y x = Some r" "\<bar>r - arctan (y / x)\<bar> \<le> 1 / 2 ^ 40"
    unfolding accurate_def by blast
  then show ?thesis using near [of r "arctan (y / x)"] by blast
qed

lemma fl_small_abs:
  assumes "\<bar>x\<bar> \<le> 2"
  shows "\<exists>r. fl x = Some r \<and> \<bar>r - x\<bar> \<le> 1 / 2 ^ 40"
proof -
  have "\<bar>x\<bar> \<le> 2 ^ 1" using assms by simp
  then obtain r where r: "fl x = Some r" using fl_finite [of x 1] by auto
  have "\<bar>r - x\<bar> \<le> \<bar>x\<bar> / 2 ^ 53 + tiny" by (rule fl_error [OF r])
  also have "\<dots> \<le> 2 / 2 ^ 53 + 1 / 2 ^ 53"
    using assms tiny_le by (intro add_mono divide_right_mono) simp_all
  also have "\<dots> \<le> 1 / 2 ^ 40" by simp
  finally show ?thesis using r by blast
qed

lemma abs_mult_le:
  fixes a b :: real
  assumes "\<bar>a\<bar> \<le> A" "\<bar>b\<bar> \<le> B"
  shows "\<bar>a * b\<bar> \<le> A * B"
proof -
  have "\<bar>a\<bar> * \<bar>b\<bar> \<le> A * B" using assms by (intro mult_mono) simp_all
  then show ?thesis by (simp add: abs_mult)
qed

text \<open>Elementary bounds on the sine and the arc tangent of a small argument.\<close>

lemma sin_near_self: "\<bar>sin (x::real) - x\<bar> \<le> \<bar>x\<bar> ^ 3 / 6"
proof -
  have "(\<Sum>m<Suc (Suc (Suc 0)). sin_coeff m * (x::real) ^ m) = x"
    unfolding sum.lessThan_Suc sin_coeff_Suc cos_coeff_Suc sin_coeff_0 cos_coeff_0
    by simp
  then have "(\<Sum>m<3. sin_coeff m * x ^ m) = x" by (simp add: eval_nat_numeral)
  moreover have "\<bar>sin x - (\<Sum>m<3. sin_coeff m * x ^ m)\<bar> \<le> inverse (fact 3) * \<bar>x\<bar> ^ 3"
    by (rule Maclaurin_sin_bound)
  moreover have "fact 3 = (6::real)" by (simp add: eval_nat_numeral)
  ultimately show ?thesis by (simp add: field_simps)
qed

lemma arctan_le_self:
  assumes "0 \<le> (x::real)"
  shows "arctan x \<le> x"
proof -
  have "(\<lambda>t. t - arctan t) 0 \<le> (\<lambda>t. t - arctan t) x"
  proof (rule DERIV_nonneg_imp_nondecreasing [OF assms])
    fix t :: real
    have "((\<lambda>t. t - arctan t) has_real_derivative 1 - inverse (1 + t\<^sup>2)) (at t)"
      by (intro derivative_intros DERIV_arctan)
    moreover have "inverse (1 + t\<^sup>2) \<le> 1"
    proof -
      have "1 \<le> 1 + t\<^sup>2" by simp
      then show ?thesis by (rule inverse_le_1_iff [THEN iffD2, OF disjI2])
    qed
    ultimately show "\<exists>y. ((\<lambda>t. t - arctan t) has_real_derivative y) (at t) \<and> 0 \<le> y"
      by (intro exI [of _ "1 - inverse (1 + t\<^sup>2)"]) simp
  qed
  then show ?thesis by simp
qed

lemma arctan_ge_cubic:
  assumes "0 \<le> (x::real)"
  shows "x - x ^ 3 / 3 \<le> arctan x"
proof -
  let ?g = "\<lambda>t::real. arctan t - t + t ^ 3 / 3"
  have "?g 0 \<le> ?g x"
  proof (rule DERIV_nonneg_imp_nondecreasing [OF assms])
    fix t :: real
    have "(?g has_real_derivative inverse (1 + t\<^sup>2) - 1 + t\<^sup>2) (at t)"
      by (auto intro!: derivative_eq_intros DERIV_arctan simp: power2_eq_square)
    moreover have "0 \<le> inverse (1 + t\<^sup>2) - 1 + t\<^sup>2"
    proof -
      have "0 < 1 + t\<^sup>2" by (simp add: add_pos_nonneg)
      moreover have "(1 + t\<^sup>2) * (1 - t\<^sup>2) = 1 - (t\<^sup>2)\<^sup>2"
        by (simp add: algebra_simps power2_eq_square)
      then have "(1 + t\<^sup>2) * (1 - t\<^sup>2) \<le> 1"
        by simp
      ultimately have "1 - t\<^sup>2 \<le> inverse (1 + t\<^sup>2)"
        by (simp add: field_simps)
      then show ?thesis by simp
    qed
    ultimately show "\<exists>y. (?g has_real_derivative y) (at t) \<and> 0 \<le> y" by blast
  qed
  then show ?thesis by simp
qed

subsection \<open>A leg of two degrees along a meridian\<close>

text \<open>
  Two degrees are \<open>0.03490658503988659\<close> radians in doubles. For two points of the
  same longitude whose latitudes differ by 2, every accurate library gives a haversine
  distance between 222.38 and 222.44; the exact great-circle distance is 222.39.
\<close>

lemma radians_2: "radians (Some 2) = Some (5030569068109113 / 144115188075855872)"
proof -
  have a: "fl (2 * Math_PI) = Some (2 * Math_PI)"
    unfolding Math_PI_def by (rule fl_eval [where e = 2]) (simp_all add: rne_def huge_def)
  have b: "fl (2 * Math_PI / 180) = Some (5030569068109113 / 144115188075855872)"
    unfolding Math_PI_def by (rule fl_eval [where e = "- 5"]) (simp_all add: rne_def huge_def)
  show ?thesis using a b by (simp add: radians_def dmul_def ddiv_def)
qed

lemma half_radians_2:
  "ddiv (radians (Some 2)) (Some 2) = Some (5030569068109113 / 288230376151711744)"
proof -
  have "fl (5030569068109113 / 144115188075855872 / 2) =
      Some (5030569068109113 / 288230376151711744)"
    by (rule fl_eval [where e = "- 6"]) (simp_all add: rne_def huge_def)
  then show ?thesis by (simp add: radians_2 ddiv_def)
qed

lemma radians_0: "ddiv (radians (Some 0)) (Some 2) = Some 0"
  by (simp add: radians_def dmul_def ddiv_def fl_zero)

lemma sin_one_degree:
  "174524 / 10000000 + 1 / 1000000000000 \<le> sin (5030569068109113 / 288230376151711744 :: real)"
  "sin (5030569068109113 / 288230376151711744 :: real) \<le> 174533 / 10000000 - 1 / 1000000000000"
proof -
  define h :: real where "h = 5030569068109113 / 288230376151711744"
  have "\<bar>sin h - h\<bar> \<le> \<bar>h\<bar> ^ 3 / 6" by (rule sin_near_self)
  moreover have "\<bar>h\<bar> ^ 3 / 6 \<le> 887 / 1000000000" unfolding h_def by (simp add: power3_eq_cube)
  moreover have "174524 / 10000000 + 1 / 1000000000000 + 887 / 1000000000 \<le> h" unfolding h_def by simp
  ultimately show "174524 / 10000000 + 1 / 1000000000000 \<le> sin (5030569068109113 / 288230376151711744 :: real)"
    unfolding h_def by linarith
  have "0 \<le> h" unfolding h_def by simp
  then have "sin h \<le> h" by (rule sin_x_le_x)
  moreover have "h \<le> 174533 / 10000000 - 1 / 1000000000000" unfolding h_def by simp
  ultimately show "sin (5030569068109113 / 288230376151711744 :: real) \<le> 174533 / 10000000 - 1 / 1000000000000"
    unfolding h_def by linarith
qed

lemma Math_PI_le: "0 \<le> Math_PI" "Math_PI \<le> 4"
  by (simp_all add: Math_PI_def)

lemma radians_small:
  assumes "\<bar>la\<bar> \<le> 90"
  shows "\<exists>v. radians (Some la) = Some v \<and> \<bar>v\<bar> \<le> 2"
proof -
  have "\<bar>la * Math_PI\<bar> \<le> 90 * (355 / 113)"
    using assms by (intro abs_mult_le) (simp_all add: Math_PI_def)
  then have m: "\<bar>la * Math_PI\<bar> \<le> 283" by simp
  then have "\<bar>la * Math_PI\<bar> \<le> 1000000" by simp
  from fl_mid [OF this] obtain u where u: "fl (la * Math_PI) = Some u"
    "la * Math_PI - 1 / 1000000000 \<le> u" "u \<le> la * Math_PI + 1 / 1000000000" by blast
  have u2: "\<bar>u / 180\<bar> \<le> 284 / 180" using u(2,3) m by simp
  then have "\<bar>u / 180\<bar> \<le> 2" by simp
  from fl_small [OF this] obtain v where v: "fl (u / 180) = Some v"
    "u / 180 - 1 / 1000000000000 \<le> v" "v \<le> u / 180 + 1 / 1000000000000" by blast
  have "\<bar>v\<bar> \<le> 2" using v(2,3) u2 by linarith
  then show ?thesis using u(1) v(1) by (simp add: radians_def dmul_def ddiv_def)
qed

lemma cos_small:
  assumes "accurate lib" "\<bar>la\<bar> \<le> 90"
  shows "\<exists>c. Math_cos lib (radians (Some la)) = Some c \<and> \<bar>c\<bar> \<le> 11 / 10"
proof -
  from radians_small [OF assms(2)] obtain v where v: "radians (Some la) = Some v" "\<bar>v\<bar> \<le> 2"
    by blast
  from accurate_cos [OF assms(1) v(2)] obtain c where c: "lib_cos lib v = Some c"
    "cos v - 1 / 1000000000000 \<le> c" "c \<le> cos v + 1 / 1000000000000" by blast
  have "- 1 \<le> cos v" "cos v \<le> 1" by simp_all
  with c(2,3) have "\<bar>c\<bar> \<le> 11 / 10" by linarith
  then show ?thesis using v(1) c(1) by (simp add: Math_cos_def)
qed

lemma longitude_term:
  assumes "accurate lib" "\<bar>la1\<bar> \<le> 90" "\<bar>la2\<bar> \<le> 90"
  shows "\<exists>t. dmul (dmul (dmul (Math_cos lib (radians (Some la1)))
                 (Math_cos lib (radians (Some la2)))) (Math_sin lib (Some 0)))
             (Math_sin lib (Some 0)) = Some t \<and>
    - (3 / 1000000000000) \<le> t \<and> t \<le> 3 / 1000000000000"
proof -
  from cos_small [OF assms(1,2)] obtain c1
    where c1: "Math_cos lib (radians (Some la1)) = Some c1" "\<bar>c1\<bar> \<le> 11 / 10" by blast
  from cos_small [OF assms(1,3)] obtain c2
    where c2: "Math_cos lib (radians (Some la2)) = Some c2" "\<bar>c2\<bar> \<le> 11 / 10" by blast
  have "\<bar>c1 * c2\<bar> \<le> 11 / 10 * (11 / 10)" using c1(2) c2(2) by (rule abs_mult_le)
  then have m: "\<bar>c1 * c2\<bar> \<le> 121 / 100" by simp
  then have "\<bar>c1 * c2\<bar> \<le> 2" by simp
  from fl_small [OF this] obtain cc where cc: "fl (c1 * c2) = Some cc"
    "c1 * c2 - 1 / 1000000000000 \<le> cc" "cc \<le> c1 * c2 + 1 / 1000000000000" by blast
  have cc': "\<bar>cc\<bar> \<le> 13 / 10" using cc(2,3) m by linarith
  have "\<bar>0::real\<bar> \<le> 2" by simp
  from accurate_sin [OF assms(1) this] obtain s where s: "lib_sin lib 0 = Some s"
    "sin 0 - 1 / 1000000000000 \<le> s" "s \<le> sin 0 + 1 / 1000000000000" by blast
  have s': "\<bar>s\<bar> \<le> 1 / 1000000000000" using s(2,3) by simp
  have "\<bar>cc * s\<bar> \<le> 13 / 10 * (1 / 1000000000000)" using cc' s' by (rule abs_mult_le)
  then have m1: "\<bar>cc * s\<bar> \<le> 2 / 1000000000000" by simp
  then have "\<bar>cc * s\<bar> \<le> 2" by simp
  from fl_small [OF this] obtain t1 where t1: "fl (cc * s) = Some t1"
    "cc * s - 1 / 1000000000000 \<le> t1" "t1 \<le> cc * s + 1 / 1000000000000" by blast
  have t1': "\<bar>t1\<bar> \<le> 3 / 1000000000000" using t1(2,3) m1 by linarith
  have "\<bar>t1 * s\<bar> \<le> 3 / 1000000000000 * (1 / 1000000000000)" using t1' s' by (rule abs_mult_le)
  then have m2: "\<bar>t1 * s\<bar> \<le> 1 / 1000000000000" by simp
  then have "\<bar>t1 * s\<bar> \<le> 2" by simp
  from fl_small [OF this] obtain t2 where t2: "fl (t1 * s) = Some t2"
    "t1 * s - 1 / 1000000000000 \<le> t2" "t2 \<le> t1 * s + 1 / 1000000000000" by blast
  have "- (3 / 1000000000000) \<le> t2 \<and> t2 \<le> 3 / 1000000000000" using t2(2,3) m2 by linarith
  then show ?thesis using c1(1) c2(1) cc(1) s(1) t1(1) t2(1)
    by (simp add: dmul_def Math_sin_def)
qed

lemma meridian_leg:
  assumes acc: "accurate lib" and two: "fl (la2 - la1) = Some 2"
    and la: "\<bar>la1\<bar> \<le> 90" "\<bar>la2\<bar> \<le> 90"
  shows "\<exists>d. haversine lib (Some la1) (Some lo) (Some la2) (Some lo) = Some d \<and>
    is_double d \<and> 22238 / 100 \<le> d \<and> d \<le> 22244 / 100"
proof -
  let ?h = "5030569068109113 / 288230376151711744 :: real"
  have hd: "ddiv (radians (dsub (Some la2) (Some la1))) (Some 2) = Some ?h"
    by (simp add: dsub_def two half_radians_2)
  have hl: "ddiv (radians (dsub (Some lo) (Some lo))) (Some 2) = Some 0"
    by (simp add: dsub_def fl_zero radians_0)
  have "\<bar>?h\<bar> \<le> 2" by simp
  from accurate_sin [OF acc this] obtain s where s0: "lib_sin lib ?h = Some s"
    "sin ?h - 1 / 1000000000000 \<le> s" "s \<le> sin ?h + 1 / 1000000000000" by blast
  have s: "174524 / 10000000 \<le> s" "s \<le> 174533 / 10000000"
    using s0(2,3) sin_one_degree by linarith+
  have S: "Math_sin lib (Some ?h) = Some s" using s0(1) by (simp add: Math_sin_def)
  have "174524 / 10000000 * (174524 / 10000000) \<le> s * s"
    by (intro mult_mono) (use s in simp_all)
  moreover have "s * s \<le> 174533 / 10000000 * (174533 / 10000000)"
    by (intro mult_mono) (use s in simp_all)
  ultimately have ss: "3045862 / 10000000000 \<le> s * s" "s * s \<le> 3046177 / 10000000000"
    by simp_all
  then have "\<bar>s * s\<bar> \<le> 2" by simp
  from fl_small [OF this] obtain p where p0: "fl (s * s) = Some p"
    "s * s - 1 / 1000000000000 \<le> p" "p \<le> s * s + 1 / 1000000000000" by blast
  have P: "dmul (Some s) (Some s) = Some p" using p0(1) by (simp add: dmul_def)
  from longitude_term [OF acc la] obtain t
    where T: "dmul (dmul (dmul (Math_cos lib (radians (Some la1)))
                 (Math_cos lib (radians (Some la2)))) (Math_sin lib (Some 0)))
             (Math_sin lib (Some 0)) = Some t"
      and t: "- (3 / 1000000000000) \<le> t" "t \<le> 3 / 1000000000000" by blast
  have pt: "3045858 / 10000000000 \<le> p + t" "p + t \<le> 3046181 / 10000000000"
    using ss p0(2,3) t by linarith+
  then have "\<bar>p + t\<bar> \<le> 2" by simp
  from fl_small [OF this] obtain a where a0: "fl (p + t) = Some a"
    "p + t - 1 / 1000000000000 \<le> a" "a \<le> p + t + 1 / 1000000000000" by blast
  have a: "304585 / 1000000000 \<le> a" "a \<le> 304619 / 1000000000"
    using pt a0(2,3) by linarith+
  have A: "dadd (Some p) (Some t) = Some a" using a0(1) by (simp add: dadd_def)
  have "0 \<le> a" "a \<le> 2" using a by simp_all
  from accurate_sqrt [OF acc this] obtain y where y0: "lib_sqrt lib a = Some y"
    "sqrt a - 1 / 1000000000000 \<le> y" "y \<le> sqrt a + 1 / 1000000000000" by blast
  have "(174523 / 10000000)\<^sup>2 \<le> a" using a(1) by (simp add: power2_eq_square)
  then have "174523 / 10000000 \<le> sqrt a" by (rule real_le_rsqrt)
  moreover have "sqrt a \<le> 174534 / 10000000"
    by (rule real_le_lsqrt) (use a(2) in \<open>simp_all add: power2_eq_square\<close>)
  ultimately have y: "174522 / 10000000 \<le> y" "y \<le> 174535 / 10000000"
    using y0(2,3) by linarith+
  have Y: "Math_sqrt lib (Some a) = Some y" using y0(1) \<open>0 \<le> a\<close> by (simp add: Math_sqrt_def)
  have "\<bar>1 - a\<bar> \<le> 2" using a by simp
  from fl_small [OF this] obtain b where b0: "fl (1 - a) = Some b"
    "1 - a - 1 / 1000000000000 \<le> b" "b \<le> 1 - a + 1 / 1000000000000" by blast
  have b: "99969 / 100000 \<le> b" "b \<le> 99970 / 100000" using a b0(2,3) by linarith+
  have B: "dsub (Some 1) (Some a) = Some b" using b0(1) by (simp add: dsub_def)
  have "0 \<le> b" "b \<le> 2" using b by simp_all
  from accurate_sqrt [OF acc this] obtain x where x0: "lib_sqrt lib b = Some x"
    "sqrt b - 1 / 1000000000000 \<le> x" "x \<le> sqrt b + 1 / 1000000000000" by blast
  have "(99984 / 100000)\<^sup>2 \<le> b" using b(1) by (simp add: power2_eq_square)
  then have "99984 / 100000 \<le> sqrt b" by (rule real_le_rsqrt)
  moreover have "sqrt b \<le> 99985 / 100000"
    by (rule real_le_lsqrt) (use b(2) in \<open>simp_all add: power2_eq_square\<close>)
  ultimately have x: "99983 / 100000 \<le> x" "x \<le> 99986 / 100000"
    using x0(2,3) by linarith+
  have X: "Math_sqrt lib (Some b) = Some x" using x0(1) \<open>0 \<le> b\<close> by (simp add: Math_sqrt_def)
  have "0 \<le> y" "y \<le> 2" "0 < x" "x \<le> 2" using x y by simp_all
  from accurate_atan2 [OF acc this] obtain th where th0: "lib_atan2 lib y x = Some th"
    "arctan (y / x) - 1 / 1000000000000 \<le> th" "th \<le> arctan (y / x) + 1 / 1000000000000"
    by blast
  have "174522 / 10000000 / (99986 / 100000) \<le> y / x"
    by (rule frac_le) (use x y in simp_all)
  then have r1: "174546 / 10000000 \<le> y / x" by simp
  have "y / x \<le> 174535 / 10000000 / (99983 / 100000)"
    by (rule frac_le) (use x y in simp_all)
  then have r2: "y / x \<le> 174565 / 10000000" by simp
  have "(174546 / 10000000 :: real) - (174546 / 10000000) ^ 3 / 3 \<le> arctan (174546 / 10000000)"
    by (rule arctan_ge_cubic) simp
  moreover have "arctan (174546 / 10000000) \<le> arctan (y / x)"
    using r1 by (rule arctan_monotone')
  moreover have "(1745282 / 100000000 :: real) \<le> 174546 / 10000000 - (174546 / 10000000) ^ 3 / 3"
    by (simp add: power3_eq_cube)
  ultimately have l: "1745282 / 100000000 \<le> arctan (y / x)" by linarith
  have "arctan (y / x) \<le> arctan (174565 / 10000000)" using r2 by (rule arctan_monotone')
  moreover have "arctan (174565 / 10000000) \<le> (174565 / 10000000 :: real)"
    by (rule arctan_le_self) simp
  ultimately have u: "arctan (y / x) \<le> 174565 / 10000000" by linarith
  have th: "174528 / 10000000 \<le> th" "th \<le> 174566 / 10000000"
    using th0(2,3) l u by linarith+
  have TH: "Math_atan2 lib (Some y) (Some x) = Some th"
    using th0(1) by (simp add: Math_atan2_def)
  have "\<bar>2 * th\<bar> \<le> 2" using th by simp
  from fl_small [OF this] obtain c where c0: "fl (2 * th) = Some c"
    "2 * th - 1 / 1000000000000 \<le> c" "c \<le> 2 * th + 1 / 1000000000000" by blast
  have c: "349055 / 10000000 \<le> c" "c \<le> 349133 / 10000000" using th c0(2,3) by linarith+
  have C: "dmul (Some 2) (Some th) = Some c" using c0(1) by (simp add: dmul_def)
  have "\<bar>6371 * c\<bar> \<le> 1000000" using c by simp
  from fl_mid [OF this] obtain d where d0: "fl (6371 * c) = Some d"
    "6371 * c - 1 / 1000000000 \<le> d" "d \<le> 6371 * c + 1 / 1000000000" by blast
  have d: "22238 / 100 \<le> d" "d \<le> 22244 / 100" using c d0(2,3) by linarith+
  have D: "dmul (Some 6371) (Some c) = Some d" using d0(1) by (simp add: dmul_def)
  have "is_double d" using d0(1) by (rule fl_is_double)
  moreover have "haversine lib (Some la1) (Some lo) (Some la2) (Some lo) = Some d"
    by (simp add: haversine_def Let_def squared_def hd hl S P T A Y B X TH C D)
  ultimately show ?thesis using d by blast
qed

subsection \<open>The library that rounds the exact values\<close>

lemma accurate_rounded_lib: "accurate rounded_lib"
proof -
  have s: "\<exists>r. fl (sin x) = Some r \<and> \<bar>r - sin x\<bar> \<le> 1 / 2 ^ 40" for x :: real
  proof -
    have "\<bar>sin x\<bar> \<le> 2" using abs_sin_le_one [of x] by linarith
    from fl_small_abs [OF this] show ?thesis .
  qed
  have c: "\<exists>r. fl (cos x) = Some r \<and> \<bar>r - cos x\<bar> \<le> 1 / 2 ^ 40" for x :: real
  proof -
    have "\<bar>cos x\<bar> \<le> 2" using abs_cos_le_one [of x] by linarith
    from fl_small_abs [OF this] show ?thesis .
  qed
  have q: "\<exists>r. fl (sqrt x) = Some r \<and> \<bar>r - sqrt x\<bar> \<le> 1 / 2 ^ 40"
    if "0 \<le> x \<and> x \<le> 2" for x :: real
  proof -
    have "sqrt x \<le> 2" by (rule real_le_lsqrt) (use that in simp_all)
    moreover have "0 \<le> sqrt x" using that by simp
    ultimately have "\<bar>sqrt x\<bar> \<le> 2" by simp
    from fl_small_abs [OF this] show ?thesis .
  qed
  have a: "\<exists>r. fl (atan2 y x) = Some r \<and> \<bar>r - arctan (y / x)\<bar> \<le> 1 / 2 ^ 40"
    if "0 \<le> y \<and> y \<le> 2 \<and> 0 < x \<and> x \<le> 2" for x y :: real
  proof -
    have e: "atan2 y x = arctan (y / x)" using that by (simp add: atan2_def)
    have "arctan (y / x) < pi / 2" "- (pi / 2) < arctan (y / x)"
      by (rule arctan_ubound, rule arctan_lbound)
    then have "\<bar>arctan (y / x)\<bar> \<le> 2" using pi_less_4 by linarith
    from fl_small_abs [OF this] show ?thesis by (simp only: e)
  qed
  show ?thesis
    unfolding accurate_def rounded_lib_def libm.simps using s c q a by blast
qed

lemma well_signed_rounded_lib: "well_signed rounded_lib"
proof -
  have q: "0 \<le> r" if "0 \<le> x" "fl (sqrt x) = Some r" for x r :: real
    using that(2) by (rule fl_nonneg) (use that(1) in simp)
  have a: "0 \<le> r" if "0 \<le> y" "fl (atan2 y x) = Some r" for x y r :: real
  proof -
    have "- (pi / 2) < arctan (y / x)" by (rule arctan_lbound)
    moreover have "0 \<le> arctan (y / x)" if "0 < x"
      using that \<open>0 \<le> y\<close> by (simp add: zero_le_arctan_iff)
    moreover have "0 < pi" by (rule pi_gt_zero)
    ultimately have "0 \<le> atan2 y x"
      using \<open>0 \<le> y\<close> by (auto simp: atan2_def; linarith?)
    with that(2) show ?thesis by (rule fl_nonneg)
  qed
  show ?thesis
    unfolding well_signed_def rounded_lib_def libm.simps using q a by blast
qed

subsection \<open>The loop\<close>

text \<open>
  The sum that the loop forms is the sum over the consecutive pairs of the route of the
  haversine distance of the pairs it counts; adding the distance 0 of a pair that is not
  counted changes nothing, the sum being a double or \<open>NaN\<close>.
\<close>

lemma segment_haversine:
  "segment lib p q = haversine lib (lat p) (lng p) (lat q) (lng q)"
  by (simp add: segment_def haversine_def radians_def squared_def R_def Let_def)

lemma truthy_counted: "truthy (lat p) = counted p"
  by (simp add: truthy_def counted_def split: option.splits)

lemma loop_skip_head:
  assumes "\<not> truthy (lat p)"
  shows "loop lib (p # ys) t = loop lib ys t"
  using assms by (cases ys) simp_all

lemma loop_skip:
  assumes "\<not> truthy (lat p)"
  shows "loop lib (xs @ p # ys) t = loop lib ys (loop lib xs t)"
proof (induction xs arbitrary: t rule: induct_list012)
  case 1
  show ?case using assms by (simp add: loop_skip_head)
next
  case (2 x)
  show ?case using assms by (simp add: loop_skip_head)
next
  case (3 x y zs)
  then show ?case by simp
qed

lemma dadd_is_double: "dadd a b = Some r \<Longrightarrow> is_double r"
  by (auto simp: dadd_def Option.bind_eq_Some_conv intro: fl_is_double)

lemma dadd_nothing: "(\<forall>x. t = Some x \<longrightarrow> is_double x) \<Longrightarrow> dadd t (Some 0) = t"
  by (cases t) (simp_all add: dadd_def fl_double)

lemma loop_sum_pairs_leg:
  assumes "\<forall>x. t = Some x \<longrightarrow> is_double x"
  shows "loop lib ps t = sum_pairs (leg lib) ps t"
  using assms
proof (induction ps arbitrary: t rule: induct_list012)
  case 1
  show ?case by simp
next
  case (2 p)
  show ?case by simp
next
  case (3 p q ps)
  show ?case
  proof (cases "counted p \<and> counted q")
    case True
    have "\<forall>x. dadd t (segment lib p q) = Some x \<longrightarrow> is_double x"
      by (simp add: dadd_is_double)
    moreover have "leg lib p q = segment lib p q"
      using True by (simp add: leg_def segment_haversine)
    ultimately show ?thesis
      using True "3.IH"(2) [of "dadd t (segment lib p q)"] by (simp add: truthy_counted)
  next
    case False
    then have "leg lib p q = Some 0" by (auto simp: leg_def)
    then show ?thesis
      using False "3.IH"(2) [OF "3.prems"] by (auto simp: truthy_counted dadd_nothing "3.prems")
  qed
qed

lemma loop_sum_pairs_spec:
  assumes "\<forall>p\<in>set ps. lat p = None \<or> (lat p \<noteq> Some 0 \<and> lng p \<noteq> None)"
    and "\<forall>x. t = Some x \<longrightarrow> is_double x"
  shows "loop lib ps t = sum_pairs (pair_spec lib) ps t"
  using assms
proof (induction ps arbitrary: t rule: induct_list012)
  case 1
  show ?case by simp
next
  case (2 p)
  show ?case by simp
next
  case (3 p q ps)
  have wf: "\<forall>p\<in>set (q # ps). lat p = None \<or> (lat p \<noteq> Some 0 \<and> lng p \<noteq> None)"
    using "3.prems"(1) by simp
  have tp: "truthy (lat p) \<longleftrightarrow> lat p \<noteq> None \<and> lng p \<noteq> None"
    and tq: "truthy (lat q) \<longleftrightarrow> lat q \<noteq> None \<and> lng q \<noteq> None"
    using "3.prems"(1) by (auto simp: truthy_def split: option.splits)
  show ?case
  proof (cases "truthy (lat p) \<and> truthy (lat q)")
    case True
    have "\<forall>x. dadd t (segment lib p q) = Some x \<longrightarrow> is_double x"
      by (simp add: dadd_is_double)
    moreover have "pair_spec lib p q = segment lib p q"
      using True tp tq by (auto simp: pair_spec_def segment_haversine)
    ultimately show ?thesis
      using True "3.IH"(2) [OF wf, of "dadd t (segment lib p q)"] by simp
  next
    case False
    then have "pair_spec lib p q = Some 0" using tp tq by (auto simp: pair_spec_def)
    then show ?thesis
      using False "3.IH"(2) [OF wf "3.prems"(2)] by (auto simp: dadd_nothing "3.prems"(2))
  qed
qed

lemma haversine_nonneg:
  assumes "well_signed lib" "haversine lib lat1 lng1 lat2 lng2 = Some r"
  shows "0 \<le> r"
proof -
  from assms(2) obtain a b y x th c
    where y: "Math_sqrt lib a = Some y" and x: "Math_sqrt lib b = Some x"
      and th: "lib_atan2 lib y x = Some th" and c: "fl (2 * th) = Some c"
      and r: "fl (6371 * c) = Some r"
    by (auto simp: haversine_def Let_def dmul_def Math_atan2_def Option.bind_eq_Some_conv)
  from y obtain a' where "\<not> a' < 0" "lib_sqrt lib a' = Some y"
    by (auto simp: Math_sqrt_def Option.bind_eq_Some_conv split: if_splits)
  then have "0 \<le> y" using assms(1) unfolding well_signed_def by (meson not_less)
  then have "0 \<le> th" using assms(1) th unfolding well_signed_def by blast
  then have "0 \<le> c" using fl_nonneg [OF c] by simp
  then show ?thesis using fl_nonneg [OF r] by simp
qed

lemma leg_nonneg:
  assumes "well_signed lib" "leg lib p q = Some r"
  shows "0 \<le> r"
  using assms haversine_nonneg [OF assms(1)] by (auto simp: leg_def split: if_splits)

lemma sum_pairs_nonneg:
  assumes "well_signed lib" "\<forall>x. t = Some x \<longrightarrow> 0 \<le> x"
    and "sum_pairs (leg lib) ps t = Some r"
  shows "0 \<le> r"
  using assms(2,3)
proof (induction ps arbitrary: t rule: induct_list012)
  case 1
  then show ?case by simp
next
  case (2 p)
  then show ?case by simp
next
  case (3 p q ps)
  have "\<forall>x. dadd t (leg lib p q) = Some x \<longrightarrow> 0 \<le> x"
  proof (intro allI impI)
    fix x
    assume "dadd t (leg lib p q) = Some x"
    then obtain u v where u: "t = Some u" and v: "leg lib p q = Some v" and x: "fl (u + v) = Some x"
      by (auto simp: dadd_def Option.bind_eq_Some_conv)
    have "0 \<le> u" using "3.prems"(1) u by simp
    moreover have "0 \<le> v" using leg_nonneg [OF assms(1) v] .
    ultimately show "0 \<le> x" using fl_nonneg [OF x] by simp
  qed
  from "3.IH"(2) [OF this] "3.prems"(2) show ?case by simp
qed

lemma sum_pairs_double:
  assumes "\<forall>x. t = Some x \<longrightarrow> is_double x" "sum_pairs f ps t = Some r"
  shows "is_double r"
  using assms
proof (induction ps arbitrary: t rule: induct_list012)
  case 1
  then show ?case by simp
next
  case (2 p)
  then show ?case by simp
next
  case (3 p q ps)
  have "\<forall>x. dadd t (f p q) = Some x \<longrightarrow> is_double x" by (simp add: dadd_is_double)
  from "3.IH"(2) [OF this] "3.prems"(2) show ?case by simp
qed

lemma calculateTotalDistance_unrounded:
  "calculateTotalDistance lib origin stops destination isReturn =
     map_option Math_round
       (if isReturn then unrounded lib origin stops destination \<bind> (\<lambda>t. fl (t * 2))
        else unrounded lib origin stops destination)"
proof (cases "counted origin \<and> counted destination")
  case True
  have "loop lib ps (Some 0) = sum_pairs (leg lib) ps (Some 0)" for ps
    by (rule loop_sum_pairs_leg) (simp add: is_double_zero)
  then show ?thesis
    using True
    by (cases "sum_pairs (leg lib) (route origin stops destination) (Some 0)"; cases isReturn)
      (auto simp: calculateTotalDistance_def unrounded_def truthy_counted
        split: Option.bind_splits)
next
  case False
  then show ?thesis
    by (auto simp: calculateTotalDistance_def unrounded_def truthy_counted Math_round_def
        fl_zero)
qed

lemma unrounded_facts:
  assumes "well_signed lib" "unrounded lib origin stops destination = Some t"
  shows "0 \<le> t" "is_double t"
proof -
  show "0 \<le> t"
    using assms sum_pairs_nonneg [OF assms(1), of "Some 0" "route origin stops destination" t]
    by (auto simp: unrounded_def split: if_splits)
  show "is_double t"
    using assms(2) sum_pairs_double [of "Some 0" "leg lib" "route origin stops destination" t]
    by (auto simp: unrounded_def is_double_zero split: if_splits)
qed

lemma round_double:
  "\<bar>Math_round (t * 2) - 2 * Math_round t\<bar> \<le> 1"
  unfolding Math_round_def by linarith

lemma round_zero: "Math_round 0 = 0"
  by (simp add: Math_round_def)

lemma round_nonneg: "0 \<le> t \<Longrightarrow> 0 \<le> Math_round t"
  unfolding Math_round_def by linarith

subsection \<open>Examples on a meridian\<close>

text \<open>
  From latitude 1 to latitude 3 and from latitude 3 to latitude 5, on the meridian of
  longitude 10: one leg rounds to 222 and its double to 445, the two legs together round
  to 445 and their double to 890, with every accurate library.
\<close>

lemma example_legs:
  assumes "accurate lib"
  shows "\<exists>d. haversine lib (Some 1) (Some 10) (Some 3) (Some 10) = Some d \<and>
      is_double d \<and> 22238 / 100 \<le> d \<and> d \<le> 22244 / 100"
    and "\<exists>d. haversine lib (Some 3) (Some 10) (Some 5) (Some 10) = Some d \<and>
      is_double d \<and> 22238 / 100 \<le> d \<and> d \<le> 22244 / 100"
  by (rule meridian_leg [OF assms]; simp add: fl_numeral)+

lemma dadd_zero_left: "is_double d \<Longrightarrow> dadd (Some 0) (Some d) = Some d"
  by (simp add: dadd_def fl_double)

lemma dadd_legs:
  assumes "22238 / 100 \<le> d1" "d1 \<le> 22244 / 100" "22238 / 100 \<le> d2" "d2 \<le> 22244 / 100"
  shows "\<exists>t. dadd (Some d1) (Some d2) = Some t \<and> 444755 / 1000 \<le> t \<and> t \<le> 444885 / 1000"
proof -
  have "\<bar>d1 + d2\<bar> \<le> 1000000" using assms by simp
  from fl_mid [OF this] obtain t where "fl (d1 + d2) = Some t"
    "d1 + d2 - 1 / 1000000000 \<le> t" "t \<le> d1 + d2 + 1 / 1000000000" by blast
  then show ?thesis using assms by (simp add: dadd_def)
qed

lemma round_222:
  assumes "22238 / 100 \<le> t" "t \<le> 22244 / 100"
  shows "Math_round t = 222" "\<exists>r. fl (t * 2) = Some r \<and> Math_round r = 445"
proof -
  show "Math_round t = 222" using assms unfolding Math_round_def by linarith
  have "\<bar>t * 2\<bar> \<le> 1000000" using assms by simp
  from fl_mid [OF this] obtain r where r: "fl (t * 2) = Some r"
    "t * 2 - 1 / 1000000000 \<le> r" "r \<le> t * 2 + 1 / 1000000000" by blast
  have "Math_round r = 445" using assms r(2,3) unfolding Math_round_def by linarith
  with r(1) show "\<exists>r. fl (t * 2) = Some r \<and> Math_round r = 445" by blast
qed

lemma round_445:
  assumes "444755 / 1000 \<le> t" "t \<le> 444885 / 1000"
  shows "Math_round t = 445" "\<exists>r. fl (t * 2) = Some r \<and> Math_round r = 890"
proof -
  show "Math_round t = 445" using assms unfolding Math_round_def by linarith
  have "\<bar>t * 2\<bar> \<le> 1000000" using assms by simp
  from fl_mid [OF this] obtain r where r: "fl (t * 2) = Some r"
    "t * 2 - 1 / 1000000000 \<le> r" "r \<le> t * 2 + 1 / 1000000000" by blast
  have "Math_round r = 890" using assms r(2,3) unfolding Math_round_def by linarith
  with r(1) show "\<exists>r. fl (t * 2) = Some r \<and> Math_round r = 890" by blast
qed

lemma example_points:
  "lat (point la lo) = Some la" "lng (point la lo) = Some lo"
  "location.truncate (stop_at la lo) = point la lo"
  "lat nowhere = None"
  by (simp_all add: point_def stop_at_def nowhere_def location.truncate_def)

lemma counted_point: "counted (point la lo) \<longleftrightarrow> la \<noteq> 0"
  by (simp add: counted_def example_points)

lemma one_leg:
  assumes "accurate lib"
  shows "calculateTotalDistance lib (point 1 10) [] (point 3 10) False = Some 222"
    and "calculateTotalDistance lib (point 1 10) [] (point 3 10) True = Some 445"
proof -
  from example_legs(1) [OF assms] obtain d
    where d: "haversine lib (Some 1) (Some 10) (Some 3) (Some 10) = Some d" "is_double d"
      "22238 / 100 \<le> d" "d \<le> 22244 / 100" by blast
  have u: "unrounded lib (point 1 10) [] (point 3 10) = Some d"
    by (simp add: unrounded_def route_def counted_point leg_def example_points d(1)
        dadd_zero_left [OF d(2)])
  from round_222 [OF d(3,4)] obtain r where r: "Math_round d = 222" "fl (d * 2) = Some r"
    "Math_round r = 445" by blast
  show "calculateTotalDistance lib (point 1 10) [] (point 3 10) False = Some 222"
    by (simp add: calculateTotalDistance_unrounded u r)
  show "calculateTotalDistance lib (point 1 10) [] (point 3 10) True = Some 445"
    by (simp add: calculateTotalDistance_unrounded u r)
qed

lemma two_legs:
  assumes "accurate lib"
  shows "calculateTotalDistance lib (point 1 10) [stop_at 3 10] (point 5 10) False = Some 445"
    and "calculateTotalDistance lib (point 1 10) [stop_at 3 10] (point 5 10) True = Some 890"
proof -
  from example_legs(1) [OF assms] obtain d1
    where d1: "haversine lib (Some 1) (Some 10) (Some 3) (Some 10) = Some d1" "is_double d1"
      "22238 / 100 \<le> d1" "d1 \<le> 22244 / 100" by blast
  from example_legs(2) [OF assms] obtain d2
    where d2: "haversine lib (Some 3) (Some 10) (Some 5) (Some 10) = Some d2" "is_double d2"
      "22238 / 100 \<le> d2" "d2 \<le> 22244 / 100" by blast
  from dadd_legs [OF d1(3,4) d2(3,4)] obtain t where t: "dadd (Some d1) (Some d2) = Some t"
    "444755 / 1000 \<le> t" "t \<le> 444885 / 1000" by blast
  have u: "unrounded lib (point 1 10) [stop_at 3 10] (point 5 10) = Some t"
    by (simp add: unrounded_def route_def counted_point leg_def example_points d1(1) d2(1)
        dadd_zero_left [OF d1(2)] t(1))
  from round_445 [OF t(2,3)] obtain r where r: "Math_round t = 445" "fl (t * 2) = Some r"
    "Math_round r = 890" by blast
  show "calculateTotalDistance lib (point 1 10) [stop_at 3 10] (point 5 10) False = Some 445"
    by (simp add: calculateTotalDistance_unrounded u r)
  show "calculateTotalDistance lib (point 1 10) [stop_at 3 10] (point 5 10) True = Some 890"
    by (simp add: calculateTotalDistance_unrounded u r)
qed

lemma spec_without_origin:
  assumes "accurate lib"
  shows "distance_spec lib nowhere [stop_at 1 10, stop_at 3 10] (point 5 10) False = Some 445"
proof -
  from example_legs(1) [OF assms] obtain d1
    where d1: "haversine lib (Some 1) (Some 10) (Some 3) (Some 10) = Some d1" "is_double d1"
      "22238 / 100 \<le> d1" "d1 \<le> 22244 / 100" by blast
  from example_legs(2) [OF assms] obtain d2
    where d2: "haversine lib (Some 3) (Some 10) (Some 5) (Some 10) = Some d2" "is_double d2"
      "22238 / 100 \<le> d2" "d2 \<le> 22244 / 100" by blast
  from dadd_legs [OF d1(3,4) d2(3,4)] obtain t where t: "dadd (Some d1) (Some d2) = Some t"
    "444755 / 1000 \<le> t" "t \<le> 444885 / 1000" by blast
  have "sum_pairs (pair_spec lib) (route nowhere [stop_at 1 10, stop_at 3 10] (point 5 10))
      (Some 0) = Some t"
    by (simp add: route_def pair_spec_def example_points d1(1) d2(1) dadd_zero_left [OF d1(2)]
        dadd_zero_left [OF is_double_zero] t(1))
  then show ?thesis
    using round_445(1) [OF t(2,3)] by (simp add: distance_spec_def)
qed

lemma one_leg_loop:
  assumes "accurate lib"
  shows "\<exists>d. loop lib [point 1 10, point 3 10] (Some 0) = Some d \<and> Math_round d = 222"
proof -
  from example_legs(1) [OF assms] obtain d
    where d: "haversine lib (Some 1) (Some 10) (Some 3) (Some 10) = Some d" "is_double d"
      "22238 / 100 \<le> d" "d \<le> 22244 / 100" by blast
  have "loop lib [point 1 10, point 3 10] (Some 0) = Some d"
    by (simp add: truthy_def segment_haversine example_points d(1)
        dadd_zero_left [OF d(2)])
  with round_222(1) [OF d(3,4)] show ?thesis by blast
qed

subsection \<open>The claims about the distance\<close>

text \<open>
  Claim C2 says that the round-trip distance is exactly twice the one-way distance. The
  code doubles the sum before it rounds: from latitude 1 to latitude 3 on the meridian of
  longitude 10 the one-way distance is 222 (222.39 rounded) and the round-trip distance
  is 445 (444.78 rounded), not 444.
\<close>

theorem C2_round_trip_counterexample:
  "calculateTotalDistance rounded_lib (point 1 10) [] (point 3 10) False = Some 222
   \<and> calculateTotalDistance rounded_lib (point 1 10) [] (point 3 10) True = Some 445"
  using one_leg [OF accurate_rounded_lib] by simp

text \<open>
  Claim C2, amended. Let \<open>t\<close> be the unrounded sum of the haversine distances of the
  pairs that the code counts, formed in doubles. The distance with \<open>isReturn = False\<close>
  is the rounding of \<open>t\<close>, and the distance with \<open>isReturn = True\<close> is the rounding
  of the double product \<open>t * 2\<close>, which is exact. With a library whose square roots and
  arc tangents of non-negative arguments are not negative, \<open>t\<close> is not negative; so the
  one-way distance, when it is a number, is a non-negative integer, and the round-trip
  distance, when it is a number too, differs from twice the one-way distance by at most
  1. Valid coordinates do not make the distances numbers: when a pair gives \<open>NaN\<close> (as
  nearly antipodal points can, \<open>1 - a\<close> being negative after rounding), both distances
  are \<open>NaN\<close>.
\<close>

theorem C2_distance_nonneg_round_trip:
  assumes "well_signed lib"
  shows "calculateTotalDistance lib origin stops destination False =
       map_option Math_round (unrounded lib origin stops destination)
    \<and> calculateTotalDistance lib origin stops destination True =
       map_option Math_round (unrounded lib origin stops destination \<bind> (\<lambda>t. fl (t * 2)))
    \<and> (\<forall>t. unrounded lib origin stops destination = Some t \<longrightarrow>
          0 \<le> t \<and> fl (t * 2) = (if huge \<le> t * 2 then None else Some (t * 2)))
    \<and> (\<forall>one_way. calculateTotalDistance lib origin stops destination False = Some one_way \<longrightarrow>
          0 \<le> one_way)
    \<and> (\<forall>one_way round_trip.
          calculateTotalDistance lib origin stops destination False = Some one_way \<longrightarrow>
          calculateTotalDistance lib origin stops destination True = Some round_trip \<longrightarrow>
          \<bar>round_trip - 2 * one_way\<bar> \<le> 1)
    \<and> (calculateTotalDistance lib origin stops destination False = None \<longrightarrow>
          calculateTotalDistance lib origin stops destination True = None)"
proof -
  let ?T = "unrounded lib origin stops destination"
  have one: "calculateTotalDistance lib origin stops destination False = map_option Math_round ?T"
    by (simp add: calculateTotalDistance_unrounded)
  have two: "calculateTotalDistance lib origin stops destination True =
      map_option Math_round (?T \<bind> (\<lambda>t. fl (t * 2)))"
    by (simp add: calculateTotalDistance_unrounded)
  have sum: "0 \<le> t \<and> fl (t * 2) = (if huge \<le> t * 2 then None else Some (t * 2))"
    if "?T = Some t" for t
  proof -
    from unrounded_facts [OF assms that] have t: "0 \<le> t" "is_double t" .
    from fl_twice [OF t(2)] t(1) show ?thesis by simp
  qed
  have nonneg: "0 \<le> one_way"
    if "calculateTotalDistance lib origin stops destination False = Some one_way" for one_way
    using that sum round_nonneg by (auto simp: one)
  have near: "\<bar>round_trip - 2 * one_way\<bar> \<le> 1"
    if "calculateTotalDistance lib origin stops destination False = Some one_way"
      "calculateTotalDistance lib origin stops destination True = Some round_trip"
    for one_way round_trip
  proof -
    from that(1) obtain t where t: "?T = Some t" "one_way = Math_round t"
      by (auto simp: one)
    from that(2) t(1) obtain r where r: "fl (t * 2) = Some r" "round_trip = Math_round r"
      by (auto simp: two)
    from sum [OF t(1)] r(1) have "r = t * 2" by (auto split: if_splits)
    then show ?thesis using round_double [of t] t(2) r(2) by simp
  qed
  have nan: "calculateTotalDistance lib origin stops destination True = None"
    if "calculateTotalDistance lib origin stops destination False = None"
    using that by (simp add: one two)
  from one two sum nonneg near nan show ?thesis by blast
qed

theorem C2_distance_nonneg_round_trip_witness:
  "calculateTotalDistance rounded_lib (point 1 10) [stop_at 3 10] (point 5 10) False = Some 445
   \<and> calculateTotalDistance rounded_lib (point 1 10) [stop_at 3 10] (point 5 10) True = Some 890
   \<and> (\<exists>t. unrounded rounded_lib (point 1 10) [stop_at 3 10] (point 5 10) = Some t \<and> 0 \<le> t \<and>
         Math_round t = 445 \<and> Math_round (t * 2) = 890)"
proof -
  let ?U = "unrounded rounded_lib (point 1 10) [stop_at 3 10] (point 5 10)"
  note C2 = C2_distance_nonneg_round_trip [OF well_signed_rounded_lib,
      of "point 1 10" "[stop_at 3 10]" "point 5 10"]
  note legs = two_legs [OF accurate_rounded_lib]
  from C2 have "calculateTotalDistance rounded_lib (point 1 10) [stop_at 3 10] (point 5 10) False =
      map_option Math_round ?U"
    by (rule conjunct1)
  with legs(1) obtain t where t: "?U = Some t" "Math_round t = 445"
    by (cases ?U) auto
  from C2 have "\<forall>t. ?U = Some t \<longrightarrow>
      0 \<le> t \<and> fl (t * 2) = (if huge \<le> t * 2 then None else Some (t * 2))"
    by (rule conjunct2 [THEN conjunct2, THEN conjunct1])
  with t(1) have s: "0 \<le> t" "fl (t * 2) = (if huge \<le> t * 2 then None else Some (t * 2))"
    by blast+
  from C2 have "calculateTotalDistance rounded_lib (point 1 10) [stop_at 3 10] (point 5 10) True =
      map_option Math_round (?U \<bind> (\<lambda>t. fl (t * 2)))"
    by (rule conjunct2 [THEN conjunct1])
  with legs(2) t(1) s(2) have "Math_round (t * 2) = 890"
    by (auto split: if_splits)
  with t s(1) legs show ?thesis by blast
qed

text \<open>
  Claim C3 says that a pair with an endpoint that misses its coordinates counts as a
  segment of length zero, the other pairs being summed. When it is the origin (or the
  destination) that has no latitude, the code returns 0 at once: with stops at latitudes
  1 and 3 and the destination at latitude 5 the result is 0, where the contract's sum over
  the two remaining pairs is 445.
\<close>

theorem C3_missing_origin_counterexample:
  "calculateTotalDistance rounded_lib nowhere [stop_at 1 10, stop_at 3 10] (point 5 10) False =
     Some 0
   \<and> distance_spec rounded_lib nowhere [stop_at 1 10, stop_at 3 10] (point 5 10) False =
     Some 445"
  using spec_without_origin [OF accurate_rounded_lib]
  by (simp add: calculateTotalDistance_def example_points truthy_def)

text \<open>
  Claim C3, amended. Take an itinerary in which every point that has a latitude has a
  latitude other than 0 and a longitude. If the origin or the destination has no latitude
  the result is 0. Otherwise the result is the sum of the haversine distances (radius
  6371), each computed in doubles, over the consecutive pairs of origin, stops and
  destination, a pair with an endpoint without latitude counting zero, doubled for a round
  trip, then rounded to the nearest integer; it is \<open>NaN\<close> when the haversine distance
  of a pair is. No case raises an error.
\<close>

theorem C3_distance_by_contract:
  assumes "\<forall>p\<in>set (route origin stops destination).
      lat p = None \<or> (lat p \<noteq> Some 0 \<and> lng p \<noteq> None)"
  shows "calculateTotalDistance lib origin stops destination isReturn =
     (if lat origin = None \<or> lat destination = None then Some 0
      else distance_spec lib origin stops destination isReturn)"
proof -
  have "lat origin = None \<or> lat origin \<noteq> Some 0"
    "lat destination = None \<or> lat destination \<noteq> Some 0"
    using assms by (auto simp: route_def)
  then have t: "truthy (lat origin) \<longleftrightarrow> lat origin \<noteq> None"
    "truthy (lat destination) \<longleftrightarrow> lat destination \<noteq> None"
    by (auto simp: truthy_def split: option.splits)
  have "loop lib (route origin stops destination) (Some 0) =
      sum_pairs (pair_spec lib) (route origin stops destination) (Some 0)"
    by (rule loop_sum_pairs_spec [OF assms]) (simp add: is_double_zero)
  then show ?thesis
    by (simp add: calculateTotalDistance_def t distance_spec_def)
qed

theorem C3_distance_by_contract_witness:
  "calculateTotalDistance rounded_lib (point 1 10) [stop_at 3 10] (point 5 10) False = Some 445
   \<and> distance_spec rounded_lib (point 1 10) [stop_at 3 10] (point 5 10) False = Some 445"
proof -
  have h: "\<forall>p\<in>set (route (point 1 10) [stop_at 3 10] (point 5 10)).
      lat p = None \<or> (lat p \<noteq> Some 0 \<and> lng p \<noteq> None)"
    by (simp add: route_def example_points)
  from C3_distance_by_contract [OF h, of rounded_lib False] two_legs(1) [OF accurate_rounded_lib]
  show ?thesis by (simp add: example_points)
qed

text \<open>A point with a latitude and without a longitude is not skipped: the result is \<open>NaN\<close>.\<close>

lemma missing_longitude_NaN:
  "calculateTotalDistance lib (point 1 10) [] ((point 3 10)\<lparr>lng := None\<rparr>) False = None"
  by (simp add: calculateTotalDistance_def route_def segment_def truthy_def point_def dsub_def
      dmul_def ddiv_def Math_sin_def dadd_def Math_sqrt_def Math_atan2_def)

text \<open>
  Claim C10. A latitude of 0 is treated like an absent latitude. If the latitude of the
  origin or of the destination is 0 or absent the result is 0, whatever the stops. A point
  inside the route whose latitude is 0 or absent contributes nothing through either of
  its two segments: the loop over the route is the loop over what comes before the point
  followed by the loop over what comes after it, also for a stop of the itinerary whose
  origin and destination pass the test. Replacing a latitude 0 by an absent latitude never
  changes the result.
\<close>

theorem C10_zero_latitude_dropped:
  "(lat origin = Some 0 \<or> lat origin = None \<or> lat destination = Some 0 \<or> lat destination = None
      \<longrightarrow> calculateTotalDistance lib origin stops destination isReturn = Some 0)
   \<and> (lat p = Some 0 \<or> lat p = None \<longrightarrow>
        loop lib (before @ p # after) t = loop lib after (loop lib before t))
   \<and> ((lat s = Some 0 \<or> lat s = None) \<and> truthy (lat origin) \<and> truthy (lat destination) \<longrightarrow>
        calculateTotalDistance lib origin (earlier @ s # later) destination isReturn =
          do {
            totalDistance \<leftarrow>
              loop lib (map location.truncate later @ [destination])
                (loop lib (origin # map location.truncate earlier) (Some 0));
            result \<leftarrow> (if isReturn then fl (totalDistance * 2) else Some totalDistance);
            Some (Math_round result)
          })
   \<and> calculateTotalDistance lib (origin\<lparr>lat := Some 0\<rparr>) stops destination isReturn =
       calculateTotalDistance lib (origin\<lparr>lat := None\<rparr>) stops destination isReturn
   \<and> calculateTotalDistance lib origin stops (destination\<lparr>lat := Some 0\<rparr>) isReturn =
       calculateTotalDistance lib origin stops (destination\<lparr>lat := None\<rparr>) isReturn
   \<and> loop lib (before @ p\<lparr>lat := Some 0\<rparr> # after) t =
       loop lib (before @ p\<lparr>lat := None\<rparr> # after) t"
proof -
  have a: "lat origin = Some 0 \<or> lat origin = None \<or> lat destination = Some 0 \<or> lat destination = None
      \<Longrightarrow> calculateTotalDistance lib origin stops destination isReturn = Some 0"
    by (auto simp: calculateTotalDistance_def truthy_def)
  have b: "lat p = Some 0 \<or> lat p = None \<Longrightarrow>
      loop lib (before @ p # after) t = loop lib after (loop lib before t)"
    by (rule loop_skip) (auto simp: truthy_def)
  have c: "calculateTotalDistance lib (origin\<lparr>lat := Some 0\<rparr>) stops destination isReturn =
       calculateTotalDistance lib (origin\<lparr>lat := None\<rparr>) stops destination isReturn"
    "calculateTotalDistance lib origin stops (destination\<lparr>lat := Some 0\<rparr>) isReturn =
       calculateTotalDistance lib origin stops (destination\<lparr>lat := None\<rparr>) isReturn"
    by (simp_all add: calculateTotalDistance_def truthy_def)
  have d: "loop lib (before @ p\<lparr>lat := Some 0\<rparr> # after) t =
      loop lib (before @ p\<lparr>lat := None\<rparr> # after) t"
    by (simp add: loop_skip truthy_def)
  have e: "calculateTotalDistance lib origin (earlier @ s # later) destination isReturn =
          do {
            totalDistance \<leftarrow>
              loop lib (map location.truncate later @ [destination])
                (loop lib (origin # map location.truncate earlier) (Some 0));
            result \<leftarrow> (if isReturn then fl (totalDistance * 2) else Some totalDistance);
            Some (Math_round result)
          }"
    if s: "lat s = Some 0 \<or> lat s = None" and t: "truthy (lat origin)" "truthy (lat destination)"
  proof -
    have "\<not> truthy (lat (location.truncate s))"
      using s by (auto simp: truthy_def location.truncate_def)
    then have "loop lib ((origin # map location.truncate earlier) @ location.truncate s #
        (map location.truncate later @ [destination])) (Some 0) =
      loop lib (map location.truncate later @ [destination])
        (loop lib (origin # map location.truncate earlier) (Some 0))"
      by (rule loop_skip)
    then show ?thesis
      using t by (simp add: calculateTotalDistance_def route_def)
  qed
  from a b c d e show ?thesis by blast
qed

theorem C10_zero_latitude_dropped_witness:
  "calculateTotalDistance rounded_lib (point 0 10) [stop_at 1 10] (point 3 10) False = Some 0
   \<and> calculateTotalDistance rounded_lib (point 1 10) [stop_at 0 10] (point 3 10) False = Some 0
   \<and> calculateTotalDistance rounded_lib (point 1 10) [stop_at 3 10, stop_at 0 10] (point 5 10)
       False = Some 222"
proof -
  have t: "truthy (lat (point 1 10))" "truthy (lat (point 3 10))" "truthy (lat (point 5 10))"
    by (simp_all add: truthy_def point_def)
  have z: "lat (point 0 10) = Some 0" "lat (stop_at 0 10) = Some 0"
    by (simp_all add: point_def stop_at_def)
  from one_leg_loop [OF accurate_rounded_lib] obtain d
    where d: "loop rounded_lib [point 1 10, point 3 10] (Some 0) = Some d" "Math_round d = 222"
    by blast
  have "calculateTotalDistance rounded_lib (point 0 10) [stop_at 1 10] (point 3 10) False = Some 0"
    by (rule C10_zero_latitude_dropped [where origin = "point 0 10", THEN conjunct1, THEN mp])
       (simp add: z)
  moreover have "calculateTotalDistance rounded_lib (point 1 10) ([] @ stop_at 0 10 # [])
      (point 3 10) False =
      do { totalDistance \<leftarrow> loop rounded_lib (map location.truncate ([]::stop list) @ [point 3 10])
             (loop rounded_lib (point 1 10 # map location.truncate ([]::stop list)) (Some 0));
           result \<leftarrow> (if False then fl (totalDistance * 2) else Some totalDistance);
           Some (Math_round result) }"
    by (rule C10_zero_latitude_dropped [where s = "stop_at 0 10" and origin = "point 1 10"
          and destination = "point 3 10" and earlier = "[]" and later = "[]" and isReturn = False,
          THEN conjunct2, THEN conjunct2, THEN conjunct1, THEN mp])
       (simp add: z t)
  moreover have "calculateTotalDistance rounded_lib (point 1 10)
      ([stop_at 3 10] @ stop_at 0 10 # []) (point 5 10) False =
      do { totalDistance \<leftarrow> loop rounded_lib (map location.truncate ([]::stop list) @ [point 5 10])
             (loop rounded_lib (point 1 10 # map location.truncate [stop_at 3 10]) (Some 0));
           result \<leftarrow> (if False then fl (totalDistance * 2) else Some totalDistance);
           Some (Math_round result) }"
    by (rule C10_zero_latitude_dropped [where s = "stop_at 0 10" and origin = "point 1 10"
          and destination = "point 5 10" and earlier = "[stop_at 3 10]" and later = "[]"
          and isReturn = False,
          THEN conjunct2, THEN conjunct2, THEN conjunct1, THEN mp])
       (simp add: z t)
  ultimately show ?thesis
    by (simp add: example_points d round_zero del: loop.simps(1))
qed

end
